theory Spec2Isabelle
  imports Main "HOL-Library.Sublist"
begin

section \<open>Errors\<close>

text \<open>
  \<^verbatim>\<open>src/utils/AppError.js\<close>: an operational error carries a status code and a message.
  Anything else that a promise can reject with (an error of the \<^verbatim>\<open>pg\<close> driver) is
  \<open>DriverError\<close>; it is the only error with \<^verbatim>\<open>isOperational\<close> unset.
\<close>

datatype error = AppError int string | DriverError

fun isOperational :: "error \<Rightarrow> bool" where
  "isOperational (AppError code msg) = True"
| "isOperational DriverError = False"

fun statusCode :: "error \<Rightarrow> int option" where
  "statusCode (AppError code msg) = Some code"
| "statusCode DriverError = None"

fun message :: "error \<Rightarrow> string" where
  "message (AppError code msg) = msg"
| "message DriverError = ''driver error''"

section \<open>Strings and numbers of the JavaScript side\<close>

text \<open>
  Strings are lists of code units; \<^typ>\<open>char\<close> covers the code units below 256, so
  \<open>length\<close> is the \<^verbatim>\<open>.length\<close> of the source for such strings. Numbers are the
  integers: ids and the integer-valued numbers of a payload, in the range where a number
  prints as its decimal numeral and \<^verbatim>\<open>parseInt\<close> reads a numeral exactly.
\<close>

definition digit_char :: "nat \<Rightarrow> char" where
  "digit_char n = char_of (48 + n)"

fun decimal :: "nat \<Rightarrow> string" where
  "decimal n = (if n < 10 then [digit_char n] else decimal (n div 10) @ [digit_char (n mod 10)])"

declare decimal.simps [simp del]

text \<open>\<^verbatim>\<open>`${n}`\<close> and \<^verbatim>\<open>n.toString()\<close> on an integer.\<close>

definition toString :: "int \<Rightarrow> string" where
  "toString i = (if i < 0 then CHR ''-'' # decimal (nat (- i)) else decimal (nat i))"

text \<open>
  The values an event payload or a request body can hold in a field. A missing field reads
  as \<open>JUndefined\<close>.
\<close>

datatype jsval = JUndefined | JNull | JBool bool | JNum int | JStr string

fun truthy :: "jsval \<Rightarrow> bool" where
  "truthy JUndefined = False"
| "truthy JNull = False"
| "truthy (JBool b) = b"
| "truthy (JNum n) = (n \<noteq> 0)"
| "truthy (JStr s) = (s \<noteq> [])"

fun ToString :: "jsval \<Rightarrow> string" where
  "ToString JUndefined = ''undefined''"
| "ToString JNull = ''null''"
| "ToString (JBool b) = (if b then ''true'' else ''false'')"
| "ToString (JNum n) = toString n"
| "ToString (JStr s) = s"

text \<open>
  White space and line terminators among the code units below 256: tab, line feed,
  vertical tab, form feed, carriage return, space, no-break space.
  \<^verbatim>\<open>String.prototype.trim\<close> removes them at both ends.
\<close>

definition is_ws :: "char \<Rightarrow> bool" where
  "is_ws c = ((of_char c :: nat) \<in> {9, 10, 11, 12, 13, 32, 160})"

definition trim :: "string \<Rightarrow> string" where
  "trim s = rev (dropWhile is_ws (rev (dropWhile is_ws s)))"

text \<open>
  \<^verbatim>\<open>parseInt(v, 10)\<close>: the argument as a string, leading white space skipped, an optional
  sign, then the longest run of decimal digits; \<open>None\<close> is \<^verbatim>\<open>NaN\<close>.
\<close>

definition is_digit :: "char \<Rightarrow> bool" where
  "is_digit c = ((48::nat) \<le> of_char c \<and> of_char c \<le> (57::nat))"

definition digits_value :: "string \<Rightarrow> int" where
  "digits_value ds = foldl (\<lambda>a c. 10 * a + (int (of_char c) - 48)) 0 ds"

definition parseInt_string :: "string \<Rightarrow> int option" where
  "parseInt_string s =
     (let t = dropWhile is_ws s;
          negative = (case t of [] \<Rightarrow> False | c # cs \<Rightarrow> c = CHR ''-'');
          signed = (case t of [] \<Rightarrow> False | c # cs \<Rightarrow> c = CHR ''-'' \<or> c = CHR ''+'');
          ds = takeWhile is_digit (if signed then tl t else t)
      in if ds = [] then None
         else Some (if negative then - digits_value ds else digits_value ds))"

definition parseInt :: "jsval \<Rightarrow> int option" where
  "parseInt v = parseInt_string (ToString v)"

section \<open>The database\<close>

text \<open>
  The four relations of the schema, with the columns that the services read. A table is
  the list of its rows in the order in which the store scans them; the schema relates that
  order to no column. A row of \<^verbatim>\<open>chat_participants\<close> is the pair
  \<open>(chat_id, user_id)\<close>. Timestamps are integers.
\<close>

record user =
  user_id :: int
  username :: string

record chat =
  chat_id :: int
  chat_name :: "string option"
  is_group_chat :: bool
  chat_created_at :: int

record msg =
  msg_id :: int
  msg_chat_id :: int
  msg_sender_id :: int
  msg_content :: string
  msg_created_at :: int

text \<open>
  \<open>faults\<close> is the schedule of the calls to the driver to come (a statement, or taking
  a client from the pool): each call takes the head of the list, and \<open>True\<close> there makes
  the driver reject it. With the schedule empty every call is answered.
  \<open>now\<close> is \<^verbatim>\<open>CURRENT_TIMESTAMP\<close>; the two sequences are those of the
  \<^verbatim>\<open>SERIAL\<close> keys, holding the value that \<^verbatim>\<open>nextval\<close> hands out next.
\<close>

record db =
  users :: "user list"
  chats :: "chat list"
  chat_participants :: "(int \<times> int) list"
  messages :: "msg list"
  chats_id_seq :: int
  messages_id_seq :: int
  now :: int
  faults :: "bool list"

text \<open>
  One call to the driver: \<open>(rejected, store afterwards)\<close>. A rejected call does nothing
  to the tables.
\<close>

definition rejected :: "db \<Rightarrow> bool" where
  "rejected d = (case faults d of [] \<Rightarrow> False | f # fs \<Rightarrow> f)"

definition spend :: "db \<Rightarrow> db" where
  "spend d = d\<lparr>faults := tl (faults d)\<rparr>"

definition db_query :: "db \<Rightarrow> bool \<times> db" where
  "db_query d = (rejected d, spend d)"

subsection \<open>userService.findUserById\<close>

definition findUserById :: "db \<Rightarrow> int \<Rightarrow> bool \<Rightarrow> (error + user option) \<times> db" where
  "findUserById d userId expectUser =
     (let (failed, d1) = db_query d in
      if failed
      then (Inl (AppError 500 ''Could not find user by ID due to a server error.''), d1)
      else (case find (\<lambda>u. user_id u = userId) (users d1) of
              None \<Rightarrow>
                if expectUser
                then (Inl (AppError 404 (''User with ID '' @ toString userId @ '' not found.'')), d1)
                else (Inr None, d1)
            | Some u \<Rightarrow> (Inr (Some u), d1)))"

subsection \<open>chatService.findChatById and chatService.checkUserInChat\<close>

definition findChatById :: "db \<Rightarrow> int \<Rightarrow> bool \<Rightarrow> (error + chat option) \<times> db" where
  "findChatById d chatId expectChat =
     (let (failed, d1) = db_query d in
      if failed
      then (Inl (AppError 500 ''Could not find chat due to a server error.''), d1)
      else (case find (\<lambda>c. chat_id c = chatId) (chats d1) of
              None \<Rightarrow>
                if expectChat
                then (Inl (AppError 404 (''Chat with ID '' @ toString chatId @ '' not found.'')), d1)
                else (Inr None, d1)
            | Some c \<Rightarrow> (Inr (Some c), d1)))"

definition checkUserInChat :: "db \<Rightarrow> int \<Rightarrow> int \<Rightarrow> bool \<Rightarrow> (error + bool) \<times> db" where
  "checkUserInChat d userId chatId expectUserInChat =
     (case findChatById d chatId True of
        (Inl e, d1) \<Rightarrow> (Inl e, d1)
      | (Inr found, d1) \<Rightarrow>
          (let (failed, d2) = db_query d1 in
           if failed
           then (Inl (AppError 500 ''Error verifying chat participation.''), d2)
           else if filter (\<lambda>(c, u). u = userId \<and> c = chatId) (chat_participants d2) \<noteq> []
           then (Inr True, d2)
           else if expectUserInChat
           then (Inl (AppError 403 ''Access denied. You are not a participant in this chat.''), d2)
           else (Inr False, d2)))"

text \<open>The two facts of the store that the guard reads.\<close>

definition chat_exists :: "db \<Rightarrow> int \<Rightarrow> bool" where
  "chat_exists d chatId = (chatId \<in> chat_id ` set (chats d))"

definition participant_row :: "db \<Rightarrow> int \<Rightarrow> int \<Rightarrow> bool" where
  "participant_row d chatId userId = ((chatId, userId) \<in> set (chat_participants d))"

subsection \<open>chatService.getUserChatsWithParticipants\<close>

record chat_details = chat +
  other_participants :: "(int \<times> string) list"
  all_participants :: "(int \<times> string) list"

text \<open>
  The two \<^verbatim>\<open>json_agg\<close> subqueries: the users joined to the participant rows of the
  chat. \<^verbatim>\<open>currentUserId\<close> is \<open>None\<close> when the caller passes \<^verbatim>\<open>undefined\<close>; the
  comparison with \<^verbatim>\<open>NULL\<close> then holds for no row, and \<^verbatim>\<open>|| []\<close> gives the empty
  list.
\<close>

definition participants_of :: "db \<Rightarrow> int \<Rightarrow> (int \<Rightarrow> bool) \<Rightarrow> (int \<times> string) list" where
  "participants_of d chatId keep =
     [(user_id u, username u).
        u \<leftarrow> users d, cp \<leftarrow> chat_participants d,
        user_id u = snd cp \<and> fst cp = chatId \<and> keep (snd cp)]"

definition with_participants :: "db \<Rightarrow> int option \<Rightarrow> chat \<Rightarrow> chat_details" where
  "with_participants d currentUserId c =
     \<lparr>chat_id = chat_id c, chat_name = chat_name c, is_group_chat = is_group_chat c,
      chat_created_at = chat_created_at c,
      other_participants =
        (case currentUserId of
           None \<Rightarrow> []
         | Some me \<Rightarrow> participants_of d (chat_id c) (\<lambda>u. u \<noteq> me)),
      all_participants = participants_of d (chat_id c) (\<lambda>u. True)\<rparr>"

definition getUserChatsWithParticipants ::
  "db \<Rightarrow> int \<Rightarrow> int option \<Rightarrow> (error + chat_details list) \<times> db" where
  "getUserChatsWithParticipants d chatId currentUserId =
     (let (failed, d1) = db_query d in
      if failed
      then (Inl (AppError 500 ''Could not retrieve detailed chat information.''), d1)
      else (Inr (map (with_participants d1 currentUserId)
                   (filter (\<lambda>c. chat_id c = chatId) (chats d1))), d1))"

subsection \<open>chatService.createChat\<close>

text \<open>The loop over \<^verbatim>\<open>userService.findUserById(userId, true)\<close>.\<close>

fun validate_users :: "db \<Rightarrow> int list \<Rightarrow> (error + unit) \<times> db" where
  "validate_users d [] = (Inr (), d)"
| "validate_users d (u # us) =
     (case findUserById d u True of
        (Inl e, d1) \<Rightarrow> (Inl e, d1)
      | (Inr found, d1) \<Rightarrow> validate_users d1 us)"

text \<open>
  \<^verbatim>\<open>INSERT INTO chats (name, is_group_chat) VALUES ($1, $2) RETURNING ...\<close>: the id comes
  from the sequence, which keeps its new value whatever becomes of the row; the key is
  unique; \<^verbatim>\<open>name\<close> is \<^verbatim>\<open>VARCHAR(255)\<close>, where an over-long value is an error unless
  the excess is spaces, which are cut.
\<close>

definition varchar255 :: "string option \<Rightarrow> string option option" where
  "varchar255 v =
     (case v of
        None \<Rightarrow> Some None
      | Some s \<Rightarrow>
          if length s \<le> 255 then Some (Some s)
          else if list_all (\<lambda>c. c = CHR '' '') (drop 255 s) then Some (Some (take 255 s))
          else None)"

definition insert_chat :: "db \<Rightarrow> string option \<Rightarrow> bool \<Rightarrow> chat option \<times> db" where
  "insert_chat w name isGroupChat =
     (let (failed, w1) = db_query w in
      if failed then (None, w1)
      else
        (let newId = chats_id_seq w1;
             w2 = w1\<lparr>chats_id_seq := newId + 1\<rparr>
         in case varchar255 name of
              None \<Rightarrow> (None, w2)
            | Some stored \<Rightarrow>
                if newId \<in> chat_id ` set (chats w2) then (None, w2)
                else
                  (let c = \<lparr>chat_id = newId, chat_name = stored, is_group_chat = isGroupChat,
                            chat_created_at = now w2\<rparr>
                   in (Some c, w2\<lparr>chats := chats w2 @ [c]\<rparr>))))"

text \<open>
  \<^verbatim>\<open>INSERT INTO chat_participants (chat_id, user_id) VALUES ($1, $2)\<close>, with the
  composite primary key and the two foreign keys of the schema, and the loop over it.
\<close>

definition insert_participant :: "db \<Rightarrow> int \<Rightarrow> int \<Rightarrow> bool \<times> db" where
  "insert_participant w chatId userId =
     (let (failed, w1) = db_query w in
      if failed then (False, w1)
      else if (chatId, userId) \<in> set (chat_participants w1) then (False, w1)
      else if chatId \<in> chat_id ` set (chats w1) \<and> userId \<in> user_id ` set (users w1)
      then (True, w1\<lparr>chat_participants := chat_participants w1 @ [(chatId, userId)]\<rparr>)
      else (False, w1))"

fun insert_participants :: "db \<Rightarrow> int \<Rightarrow> int list \<Rightarrow> bool \<times> db" where
  "insert_participants w chatId [] = (True, w)"
| "insert_participants w chatId (u # us) =
     (case insert_participant w chatId u of
        (False, w1) \<Rightarrow> (False, w1)
      | (True, w1) \<Rightarrow> insert_participants w1 chatId us)"

text \<open>
  The \<^verbatim>\<open>catch\<close> block: \<^verbatim>\<open>ROLLBACK\<close> is sent first, and its rejection is what the
  block then throws; otherwise an \<open>AppError\<close> is thrown again and anything else becomes
  the 500 of \<^verbatim>\<open>createChat\<close>.
\<close>

definition createChat_catch :: "db \<Rightarrow> error \<Rightarrow> error \<times> db" where
  "createChat_catch w err =
     (let (failed, w1) = db_query w in
      if failed then (DriverError, w1)
      else (case err of
              AppError code msg \<Rightarrow> (err, w1)
            | DriverError \<Rightarrow> (AppError 500 ''Could not create chat due to a server error.'', w1)))"

text \<open>
  What the transaction wrote is visible to no other session before \<^verbatim>\<open>COMMIT\<close>, and
  is gone once the transaction ends without it: \<open>discard d0 w\<close> puts the two tables back
  to their state \<open>d0\<close> at \<^verbatim>\<open>BEGIN\<close>. Sequences, clock and schedule are not
  transactional.
\<close>

definition discard :: "db \<Rightarrow> db \<Rightarrow> db" where
  "discard d0 w = w\<lparr>chats := chats d0, chat_participants := chat_participants d0\<rparr>"

definition abort :: "db \<Rightarrow> db \<Rightarrow> error \<Rightarrow> (error + 'a) \<times> db" where
  "abort d0 w err = (let (e, w1) = createChat_catch (discard d0 w) err in (Inl e, w1))"

datatype created = WithDetails chat_details | Plain chat

definition createChat ::
  "db \<Rightarrow> int list \<Rightarrow> string option \<Rightarrow> bool \<Rightarrow> (error + created) \<times> db" where
  "createChat d userIds name isGroupChat =
     (let (noClient, d0) = db_query d in
      if noClient then (Inl DriverError, d0)
      else
        (let (noBegin, w1) = db_query d0 in
         if noBegin then abort d0 w1 DriverError
         else
           (case validate_users w1 userIds of
              (Inl e, w2) \<Rightarrow> abort d0 w2 e
            | (Inr ok, w2) \<Rightarrow>
                (case insert_chat w2 name isGroupChat of
                   (None, w3) \<Rightarrow> abort d0 w3 DriverError
                 | (Some newChat, w3) \<Rightarrow>
                     (case insert_participants w3 (chat_id newChat) userIds of
                        (False, w4) \<Rightarrow> abort d0 w4 DriverError
                      | (True, w4) \<Rightarrow>
                          (let (noCommit, w5) = db_query w4 in
                           if noCommit then abort d0 w5 DriverError
                           else
                             (case getUserChatsWithParticipants w5 (chat_id newChat)
                                     (case userIds of [] \<Rightarrow> None | u # us \<Rightarrow> Some u) of
                                (Inl e, w6) \<Rightarrow>
                                  (let (e1, w7) = createChat_catch w6 e in (Inl e1, w7))
                              | (Inr rows, w6) \<Rightarrow>
                                  (Inr (case rows of
                                          [] \<Rightarrow> Plain newChat
                                        | r # rs \<Rightarrow> WithDetails r), w6))))))))"

subsection \<open>chatService.getChatMessages\<close>





subsection \<open>chatService.createMessage\<close>

record new_message = msg +
  msg_sender :: "int \<times> string"

text \<open>
  \<^verbatim>\<open>INSERT INTO messages (chat_id, sender_id, content) VALUES ($1, $2, $3) RETURNING ...\<close>
  with the key and the two foreign keys of the schema; the statement commits on its own.
  A successful \<^verbatim>\<open>INSERT ... RETURNING\<close> has its row, so \<^verbatim>\<open>rows[0]\<close> is defined.
\<close>

definition insert_message :: "db \<Rightarrow> int \<Rightarrow> int \<Rightarrow> string \<Rightarrow> msg option \<times> db" where
  "insert_message d chatId senderId content =
     (let (failed, d1) = db_query d in
      if failed then (None, d1)
      else
        (let newId = messages_id_seq d1;
             d2 = d1\<lparr>messages_id_seq := newId + 1\<rparr>
         in if newId \<in> msg_id ` set (messages d2) then (None, d2)
            else if chatId \<in> chat_id ` set (chats d2) \<and> senderId \<in> user_id ` set (users d2)
            then
              (let m = \<lparr>msg_id = newId, msg_chat_id = chatId, msg_sender_id = senderId,
                        msg_content = content, msg_created_at = now d2\<rparr>
               in (Some m, d2\<lparr>messages := messages d2 @ [m]\<rparr>))
            else (None, d2)))"

definition createMessage ::
  "db \<Rightarrow> int \<Rightarrow> int \<Rightarrow> string \<Rightarrow> (error + new_message) \<times> db" where
  "createMessage d chatId senderId content =
     (case checkUserInChat d senderId chatId True of
        (Inl e, d1) \<Rightarrow> (Inl e, d1)
      | (Inr ok, d1) \<Rightarrow>
          (case insert_message d1 chatId senderId content of
             (None, d2) \<Rightarrow>
               (Inl (AppError 500 ''Could not create message due to a server error.''), d2)
           | (Some newMessage, d2) \<Rightarrow>
               (case findUserById d2 (msg_sender_id newMessage) False of
                  (Inl e, d3) \<Rightarrow> (Inl e, d3)
                | (Inr None, d3) \<Rightarrow>
                    (Inl (AppError 500
                       ''Failed to retrieve sender details for the new message.''), d3)
                | (Inr (Some senderDetails), d3) \<Rightarrow>
                    (Inr \<lparr>msg_id = msg_id newMessage, msg_chat_id = msg_chat_id newMessage,
                          msg_sender_id = msg_sender_id newMessage,
                          msg_content = msg_content newMessage,
                          msg_created_at = msg_created_at newMessage,
                          msg_sender = (user_id senderDetails, username senderDetails)\<rparr>,
                     d3))))"

subsection \<open>chatService.searchUserChats\<close>

text \<open>
  \<^verbatim>\<open>subject LIKE pattern\<close>: in the pattern \<^verbatim>\<open>%\<close> stands for any run of characters,
  \<^verbatim>\<open>_\<close> for any one character, and a backslash takes the character after it literally.
  (A pattern that ends in a lone backslash is an error in the store; the patterns of
  \<open>searchUserChats\<close> end in \<^verbatim>\<open>%\<close>, and the match is \<open>False\<close> here.)
  \<^verbatim>\<open>ILIKE\<close> compares without regard to case: both sides are folded to lower case,
  here over the letters A to Z.
\<close>

fun like :: "string \<Rightarrow> string \<Rightarrow> bool" where
  "like [] [] = True"
| "like (c # cs) [] = False"
| "like s (p # ps) =
     (if p = CHR ''%'' then
        like s ps \<or> (case s of [] \<Rightarrow> False | c # cs \<Rightarrow> like cs (p # ps))
      else if p = CHR ''_'' then
        (case s of [] \<Rightarrow> False | c # cs \<Rightarrow> like cs ps)
      else if p = CHR 0x5C then
        (case ps of
           [] \<Rightarrow> False
         | q # qs \<Rightarrow> (case s of [] \<Rightarrow> False | c # cs \<Rightarrow> c = q \<and> like cs qs))
      else
        (case s of [] \<Rightarrow> False | c # cs \<Rightarrow> c = p \<and> like cs ps))"

declare like.simps(3) [simp del]

definition lower :: "char \<Rightarrow> char" where
  "lower c =
     (if (65::nat) \<le> of_char c \<and> of_char c \<le> (90::nat) then char_of (of_char c + (32::nat))
      else c)"

definition ilike :: "string \<Rightarrow> string \<Rightarrow> bool" where
  "ilike s pattern = like (map lower s) (map lower pattern)"

text \<open>
  The rows of
  \<^verbatim>\<open>chats c JOIN chat_participants cp_user ... LEFT JOIN chat_participants cp_search_part ...
  LEFT JOIN users u_search ...\<close> and the \<^verbatim>\<open>WHERE\<close> clause on one such row. A \<^verbatim>\<open>NULL\<close>
  name, and a participant row without its user, match nothing.
\<close>

definition left_join_users :: "db \<Rightarrow> int \<Rightarrow> user option list" where
  "left_join_users d userId =
     (case filter (\<lambda>u. user_id u = userId) (users d) of
        [] \<Rightarrow> [None]
      | us \<Rightarrow> map Some us)"

definition search_where ::
  "db \<Rightarrow> int \<Rightarrow> string \<Rightarrow> chat \<Rightarrow> int \<times> int \<Rightarrow> user option \<Rightarrow> bool" where
  "search_where d userId pattern c cp_user u_search =
     (snd cp_user = userId \<and>
      ((case chat_name c of None \<Rightarrow> False | Some n \<Rightarrow> ilike n pattern)
       \<or> (is_group_chat c = False
            \<and> (case u_search of
                  None \<Rightarrow> False
                | Some u \<Rightarrow> user_id u \<noteq> userId \<and> ilike (username u) pattern))
       \<or> (is_group_chat c = True
            \<and> list_ex (\<lambda>cp_group_search.
                  fst cp_group_search = chat_id c
                  \<and> list_ex (\<lambda>u_group_search.
                        snd cp_group_search = user_id u_group_search
                        \<and> ilike (username u_group_search) pattern) (users d))
                (chat_participants d))))"

definition search_rows :: "db \<Rightarrow> int \<Rightarrow> string \<Rightarrow> chat list" where
  "search_rows d userId pattern =
     [c. c \<leftarrow> chats d,
         cp_user \<leftarrow> chat_participants d, chat_id c = fst cp_user,
         cp_search_part \<leftarrow> chat_participants d, chat_id c = fst cp_search_part,
         u_search \<leftarrow> left_join_users d (snd cp_search_part),
         search_where d userId pattern c cp_user u_search]"

text \<open>
  \<^verbatim>\<open>SELECT DISTINCT\<close> over the columns of the chat and its two participant lists, then
  \<^verbatim>\<open>ORDER BY c.created_at DESC\<close>.
\<close>

definition searchUserChats :: "db \<Rightarrow> int \<Rightarrow> string \<Rightarrow> (error + chat_details list) \<times> db" where
  "searchUserChats d userId searchTerm =
     (case findUserById d userId True of
        (Inl e, d1) \<Rightarrow> (Inl e, d1)
      | (Inr found, d1) \<Rightarrow>
          (let searchTermLike = CHR ''%'' # searchTerm @ ''%'';
               (failed, d2) = db_query d1
           in if failed then (Inl (AppError 500 ''Could not perform chat search.''), d2)
              else (Inr (sort_key (\<lambda>c. - chat_created_at c)
                           (remdups (map (with_participants d2 (Some userId))
                                       (search_rows d2 userId searchTermLike)))), d2)))"

text \<open>
  The search as the specification words it: the chats in which the user is a participant
  and whose name, or the username of one of whose participants, contains the term as a
  substring without regard to case.
\<close>

definition ci_substring :: "string \<Rightarrow> string \<Rightarrow> bool" where
  "ci_substring t s = sublist (map lower t) (map lower s)"

definition name_matches :: "string \<Rightarrow> chat \<Rightarrow> bool" where
  "name_matches t c = (case chat_name c of None \<Rightarrow> False | Some n \<Rightarrow> ci_substring t n)"

definition username_matches :: "db \<Rightarrow> string \<Rightarrow> int \<Rightarrow> bool" where
  "username_matches d t userId =
     list_ex (\<lambda>u. user_id u = userId \<and> ci_substring t (username u)) (users d)"


text \<open>
  The search as the query has it: in a chat that is not a group chat only the usernames of
  the participants other than the searching user count.
\<close>

definition search_match :: "db \<Rightarrow> int \<Rightarrow> string \<Rightarrow> chat \<Rightarrow> bool" where
  "search_match d userId t c =
     (participant_row d (chat_id c) userId
      \<and> (name_matches t c
          \<or> list_ex (\<lambda>cp. fst cp = chat_id c
                         \<and> (is_group_chat c \<or> snd cp \<noteq> userId)
                         \<and> username_matches d t (snd cp))
               (chat_participants d)))"


section \<open>The HTTP entry point for messages\<close>

text \<open>
  \<^verbatim>\<open>chatController.createMessageHandler\<close>, after \<^verbatim>\<open>verifyToken\<close> has put the token's
  payload into \<^verbatim>\<open>req.user\<close>: the path parameter, the \<^verbatim>\<open>content\<close> field of the body,
  and the answer, an error handed to \<^verbatim>\<open>next\<close> or the status 201 with the message.
\<close>

record claim =
  claim_id :: int
  claim_username :: string

definition createMessageHandler ::
  "db \<Rightarrow> claim \<Rightarrow> string \<Rightarrow> jsval \<Rightarrow> (error + int \<times> new_message) \<times> db" where
  "createMessageHandler d reqUser chatIdParam content =
     (let senderId = claim_id reqUser;
          chatId = parseInt_string chatIdParam
      in if (case chatId of None \<Rightarrow> True | Some n \<Rightarrow> n \<le> 0)
         then (Inl (AppError 400 ''Invalid Chat ID in path. Must be a positive integer.''), d)
         else if \<not> truthy content
                 \<or> (case content of JStr c \<Rightarrow> trim c = [] | other \<Rightarrow> True)
         then (Inl (AppError 400 ''Message content cannot be empty.''), d)
         else if 2000 < length (trim (ToString content))
         then (Inl (AppError 400 ''Message content is too long (max 2000 characters).''), d)
         else (case createMessage d (the chatId) senderId (trim (ToString content)) of
                 (Inl e, d1) \<Rightarrow> (Inl e, d1)
               | (Inr newMessage, d1) \<Rightarrow> (Inr (201, newMessage), d1)))"

section \<open>The socket layer\<close>

subsection \<open>The handshake\<close>

text \<open>
  The two library calls of the middleware are parameters: \<^verbatim>\<open>cookie.parse\<close>, from the
  cookie header to its cookies, and \<^verbatim>\<open>jwt.verify\<close> with the secret, which returns the
  payload or throws an error with a \<^verbatim>\<open>name\<close>.
\<close>

datatype verified = Decoded claim | Thrown string

record libs =
  cookie_parse :: "string \<Rightarrow> string \<Rightarrow> string option"
  jwt_verify :: "string \<Rightarrow> verified"

text \<open>
  The callback of \<^verbatim>\<open>io.use\<close>: \<open>Inl\<close> is the message of the error given to
  \<^verbatim>\<open>next\<close>, \<open>Inr\<close> the payload stored in \<^verbatim>\<open>socket.user\<close>.
\<close>

definition authenticate :: "libs \<Rightarrow> string option \<Rightarrow> string + claim" where
  "authenticate L cookieString =
     (case cookieString of
        None \<Rightarrow> Inl ''Authentication error: No cookies provided.''
      | Some cs \<Rightarrow>
          if cs = [] then Inl ''Authentication error: No cookies provided.''
          else
            (case cookie_parse L cs ''accessToken'' of
               None \<Rightarrow> Inl ''Authentication error: Access token not found in cookies.''
             | Some token \<Rightarrow>
                 if token = [] then Inl ''Authentication error: Access token not found in cookies.''
                 else
                   (case jwt_verify L token of
                      Decoded decodedPayload \<Rightarrow> Inr decodedPayload
                    | Thrown name \<Rightarrow>
                        if name = ''TokenExpiredError''
                        then Inl ''Authentication error: Access token expired. Please refresh.''
                        else if name = ''JsonWebTokenError''
                        then Inl ''Authentication error: Invalid access token.''
                        else Inl ''Authentication error: Could not verify token.'')))"

text \<open>
  The reasons of the specification, read off a refusal's message, and the cause of a
  failure as the specification lists them: no cookie or no \<^verbatim>\<open>accessToken\<close> cookie, an
  expired token, an invalid token, a verifier that fails in any other way.
\<close>

datatype reason = NoCredential | InvalidCredential | ExpiredCredential | VerificationUnavailable

definition refusal_reason :: "string \<Rightarrow> reason option" where
  "refusal_reason m =
     (if m = ''Authentication error: No cookies provided.'' then Some NoCredential
      else if m = ''Authentication error: Access token not found in cookies.''
      then Some NoCredential
      else if m = ''Authentication error: Access token expired. Please refresh.''
      then Some ExpiredCredential
      else if m = ''Authentication error: Invalid access token.'' then Some InvalidCredential
      else if m = ''Authentication error: Could not verify token.''
      then Some VerificationUnavailable
      else None)"

definition credential :: "libs \<Rightarrow> string option \<Rightarrow> string option" where
  "credential L cookieString =
     (case cookieString of
        None \<Rightarrow> None
      | Some cs \<Rightarrow>
          (case cookie_parse L cs ''accessToken'' of
             None \<Rightarrow> None
           | Some token \<Rightarrow> if cs = [] \<or> token = [] then None else Some token))"

definition failure_cause :: "libs \<Rightarrow> string option \<Rightarrow> reason option" where
  "failure_cause L cookieString =
     (case credential L cookieString of
        None \<Rightarrow> Some NoCredential
      | Some token \<Rightarrow>
          (case jwt_verify L token of
             Decoded c \<Rightarrow> None
           | Thrown name \<Rightarrow>
               if name = ''TokenExpiredError'' then Some ExpiredCredential
               else if name = ''JsonWebTokenError'' then Some InvalidCredential
               else Some VerificationUnavailable))"

subsection \<open>Connections, rooms and what the server sends\<close>

record payload =
  p_chatId :: jsval
  p_content :: jsval
  p_isTyping :: jsval

datatype client_event =
    JoinChat "payload option"
  | LeaveChat "payload option"
  | SendMessage "payload option"
  | Typing "payload option"

datatype server_event =
    ChatJoined int string
  | ChatLeft int string
  | NewMessage new_message
  | UserTyping int string int bool
  | SocketError string string

text \<open>
  The state of the process: the store; the connected sockets with their
  \<^verbatim>\<open>socket.user\<close>; the rooms of the adapter (a room is named by the decimal numeral of
  the chat id, which names one id only, so the id stands for the room; the room that each
  socket has under its own id, which is no numeral, is left out); every event sent, with
  the socket it was sent to; the messages of the refused handshakes.
\<close>

record server =
  store :: db
  sockets :: "(nat \<times> claim) list"
  rooms :: "int \<Rightarrow> nat set"
  delivered :: "(nat \<times> server_event) list"
  refused :: "string list"
  next_socket :: nat

definition init_server :: "db \<Rightarrow> server" where
  "init_server d =
     \<lparr>store = d, sockets = [], rooms = (\<lambda>room. {}), delivered = [], refused = [],
      next_socket = 0\<rparr>"

text \<open>
  The calls of the library: \<^verbatim>\<open>socket.emit\<close> sends to the socket itself,
  \<^verbatim>\<open>io.to(room).emit\<close> to every connected socket in the room,
  \<^verbatim>\<open>socket.to(room).emit\<close> to every connected socket in the room but the socket itself.
\<close>

definition socket_emit :: "server \<Rightarrow> nat \<Rightarrow> server_event \<Rightarrow> server" where
  "socket_emit s k ev = s\<lparr>delivered := delivered s @ [(k, ev)]\<rparr>"

definition io_to_emit :: "server \<Rightarrow> int \<Rightarrow> server_event \<Rightarrow> server" where
  "io_to_emit s room ev =
     s\<lparr>delivered := delivered s
          @ map (\<lambda>k. (k, ev)) (filter (\<lambda>k. k \<in> rooms s room) (map fst (sockets s)))\<rparr>"

definition socket_to_emit :: "server \<Rightarrow> nat \<Rightarrow> int \<Rightarrow> server_event \<Rightarrow> server" where
  "socket_to_emit s k room ev =
     s\<lparr>delivered := delivered s
          @ map (\<lambda>k1. (k1, ev))
              (filter (\<lambda>k1. k1 \<in> rooms s room \<and> k1 \<noteq> k) (map fst (sockets s)))\<rparr>"

definition socket_join :: "server \<Rightarrow> nat \<Rightarrow> int \<Rightarrow> server" where
  "socket_join s k room = s\<lparr>rooms := (rooms s)(room := insert k (rooms s room))\<rparr>"

definition socket_leave :: "server \<Rightarrow> nat \<Rightarrow> int \<Rightarrow> server" where
  "socket_leave s k room = s\<lparr>rooms := (rooms s)(room := rooms s room - {k})\<rparr>"

subsection \<open>The event handlers\<close>

text \<open>
  \<^verbatim>\<open>data && data.chatId ? parseInt(data.chatId, 10) : null\<close>; \<open>None\<close> is \<^verbatim>\<open>null\<close> or
  \<^verbatim>\<open>NaN\<close>, which the check \<^verbatim>\<open>!chatId || isNaN(chatId) || chatId <= 0\<close> treats alike.
  \<open>data\<close> is \<open>None\<close> when the event carries nothing to read fields from.
\<close>

definition event_chatId :: "payload option \<Rightarrow> int option" where
  "event_chatId data =
     (case data of
        None \<Rightarrow> None
      | Some p \<Rightarrow> if truthy (p_chatId p) then parseInt (p_chatId p) else None)"

definition invalid_chatId :: "int option \<Rightarrow> bool" where
  "invalid_chatId chatId = (case chatId of None \<Rightarrow> True | Some n \<Rightarrow> n \<le> 0)"

definition on_joinChat :: "server \<Rightarrow> nat \<Rightarrow> claim \<Rightarrow> payload option \<Rightarrow> server" where
  "on_joinChat s k socketUser data =
     (let chatId = event_chatId data in
      if invalid_chatId chatId
      then socket_emit s k
             (SocketError ''joinChat'' ''Invalid Chat ID. Must be a positive integer.'')
      else
        (case checkUserInChat (store s) (claim_id socketUser) (the chatId) True of
           (Inl e, d1) \<Rightarrow>
             socket_emit (s\<lparr>store := d1\<rparr>) k
               (SocketError ''joinChat''
                  (if isOperational e then message e
                   else ''Failed to join chat. An unexpected error occurred.''))
         | (Inr ok, d1) \<Rightarrow>
             socket_emit (socket_join (s\<lparr>store := d1\<rparr>) k (the chatId)) k
               (ChatJoined (the chatId) (''Successfully joined chat '' @ toString (the chatId)))))"

definition on_leaveChat :: "server \<Rightarrow> nat \<Rightarrow> claim \<Rightarrow> payload option \<Rightarrow> server" where
  "on_leaveChat s k socketUser data =
     (let chatId = event_chatId data in
      if invalid_chatId chatId then s
      else socket_emit (socket_leave s k (the chatId)) k
             (ChatLeft (the chatId) (''Successfully left chat '' @ toString (the chatId))))"

definition event_content :: "payload option \<Rightarrow> string option" where
  "event_content data =
     (case data of
        None \<Rightarrow> None
      | Some p \<Rightarrow> (case p_content p of JStr c \<Rightarrow> Some (trim c) | other \<Rightarrow> None))"

definition on_sendMessage :: "server \<Rightarrow> nat \<Rightarrow> claim \<Rightarrow> payload option \<Rightarrow> server" where
  "on_sendMessage s k socketUser data =
     (let chatId = event_chatId data;
          content = event_content data
      in if invalid_chatId chatId
         then socket_emit s k
                (SocketError ''sendMessage'' ''Invalid Chat ID. Must be a positive integer.'')
         else if (case content of None \<Rightarrow> True | Some c \<Rightarrow> c = [])
         then socket_emit s k
                (SocketError ''sendMessage'' ''Message content cannot be empty.'')
         else if 2000 < length (the content)
         then socket_emit s k
                (SocketError ''sendMessage''
                   ''Message content is too long (max 2000 characters).'')
         else
           (case createMessage (store s) (the chatId) (claim_id socketUser) (the content) of
              (Inl e, d1) \<Rightarrow>
                socket_emit (s\<lparr>store := d1\<rparr>) k
                  (SocketError ''sendMessage''
                     (if isOperational e then message e
                      else ''Failed to send message. An unexpected error occurred.''))
            | (Inr newMessage, d1) \<Rightarrow>
                io_to_emit (s\<lparr>store := d1\<rparr>) (the chatId) (NewMessage newMessage)))"

definition event_isTyping :: "payload option \<Rightarrow> bool option" where
  "event_isTyping data =
     (case data of
        None \<Rightarrow> None
      | Some p \<Rightarrow> (case p_isTyping p of JBool b \<Rightarrow> Some b | other \<Rightarrow> None))"

definition on_typing :: "server \<Rightarrow> nat \<Rightarrow> claim \<Rightarrow> payload option \<Rightarrow> server" where
  "on_typing s k socketUser data =
     (let chatId = event_chatId data;
          isTyping = event_isTyping data
      in if invalid_chatId chatId \<or> isTyping = None then s
         else socket_to_emit s k (the chatId)
                (UserTyping (claim_id socketUser) (claim_username socketUser) (the chatId)
                   (the isTyping)))"

text \<open>On \<^verbatim>\<open>disconnect\<close> the library takes the socket out of all its rooms.\<close>

definition on_disconnect :: "server \<Rightarrow> nat \<Rightarrow> server" where
  "on_disconnect s k =
     s\<lparr>sockets := filter (\<lambda>(k1, u). k1 \<noteq> k) (sockets s),
       rooms := (\<lambda>room. rooms s room - {k})\<rparr>"

subsection \<open>Executions\<close>

text \<open>
  What can happen to the process, one event at a time: a connection attempt with its cookie
  header; an event from a socket (heard only while the socket is connected); a disconnect;
  a call of \<open>createChat\<close> and a \<^verbatim>\<open>POST /chats/:id/messages\<close> from the HTTP side; time
  passing. A handler runs to its end before the next event.
\<close>

datatype event =
    Connect "string option"
  | Emit nat client_event
  | Disconnect nat
  | CreateChat "int list" "string option" bool
  | PostMessage claim string jsval
  | TimePasses nat

definition on_connect :: "libs \<Rightarrow> server \<Rightarrow> string option \<Rightarrow> server" where
  "on_connect L s cookieString =
     (case authenticate L cookieString of
        Inl m \<Rightarrow> s\<lparr>refused := refused s @ [m]\<rparr>
      | Inr decodedPayload \<Rightarrow>
          s\<lparr>sockets := sockets s @ [(next_socket s, decodedPayload)],
            next_socket := Suc (next_socket s)\<rparr>)"

fun handle :: "server \<Rightarrow> nat \<Rightarrow> claim \<Rightarrow> client_event \<Rightarrow> server" where
  "handle s k u (JoinChat data) = on_joinChat s k u data"
| "handle s k u (LeaveChat data) = on_leaveChat s k u data"
| "handle s k u (SendMessage data) = on_sendMessage s k u data"
| "handle s k u (Typing data) = on_typing s k u data"

fun step :: "libs \<Rightarrow> server \<Rightarrow> event \<Rightarrow> server" where
  "step L s (Connect cookieString) = on_connect L s cookieString"
| "step L s (Emit k ev) =
     (case map_of (sockets s) k of None \<Rightarrow> s | Some u \<Rightarrow> handle s k u ev)"
| "step L s (Disconnect k) = on_disconnect s k"
| "step L s (CreateChat userIds name isGroupChat) =
     s\<lparr>store := snd (createChat (store s) userIds name isGroupChat)\<rparr>"
| "step L s (PostMessage reqUser chatIdParam content) =
     s\<lparr>store := snd (createMessageHandler (store s) reqUser chatIdParam content)\<rparr>"
| "step L s (TimePasses n) = s\<lparr>store := (store s)\<lparr>now := now (store s) + int n\<rparr>\<rparr>"

definition run :: "libs \<Rightarrow> server \<Rightarrow> event list \<Rightarrow> server" where
  "run L s evs = foldl (step L) s evs"

text \<open>
  The room an event sent by the server is scoped to: the chat of a \<^verbatim>\<open>newMessage\<close> or a
  \<^verbatim>\<open>userTyping\<close>.
\<close>

fun scope :: "server_event \<Rightarrow> int option" where
  "scope (NewMessage m) = Some (msg_chat_id m)"
| "scope (UserTyping userId name chatId isTyping) = Some chatId"
| "scope (ChatJoined chatId m) = None"
| "scope (ChatLeft chatId m) = None"
| "scope (SocketError ev m) = None"

text \<open>
  \<open>joins e k X\<close>: the event is a \<^verbatim>\<open>joinChat\<close> of socket \<open>k\<close> whose chat id reads as
  \<open>X\<close>. \<open>guard_passes s k X\<close>: in the state \<open>s\<close> the membership guard lets the user of
  socket \<open>k\<close> into chat \<open>X\<close>. \<open>no_admitted_join\<close>: along the execution, socket \<open>k\<close>
  issued no \<^verbatim>\<open>joinChat\<close> for \<open>X\<close>, or none that passed the guard when it was issued.
\<close>

fun joins :: "event \<Rightarrow> nat \<Rightarrow> int \<Rightarrow> bool" where
  "joins (Emit k1 (JoinChat data)) k X = (k1 = k \<and> event_chatId data = Some X)"
| "joins (Emit k1 (LeaveChat data)) k X = False"
| "joins (Emit k1 (SendMessage data)) k X = False"
| "joins (Emit k1 (Typing data)) k X = False"
| "joins (Connect cookieString) k X = False"
| "joins (Disconnect k1) k X = False"
| "joins (CreateChat userIds name isGroupChat) k X = False"
| "joins (PostMessage reqUser chatIdParam content) k X = False"
| "joins (TimePasses n) k X = False"

definition guard_passes :: "server \<Rightarrow> nat \<Rightarrow> int \<Rightarrow> bool" where
  "guard_passes s k X =
     (case map_of (sockets s) k of
        None \<Rightarrow> False
      | Some u \<Rightarrow> \<not> isl (fst (checkUserInChat (store s) (claim_id u) X True)))"

fun no_admitted_join :: "libs \<Rightarrow> server \<Rightarrow> event list \<Rightarrow> nat \<Rightarrow> int \<Rightarrow> bool" where
  "no_admitted_join L s [] k X = True"
| "no_admitted_join L s (e # es) k X =
     ((joins e k X \<and> guard_passes s k X) = False \<and> no_admitted_join L (step L s e) es k X)"

text \<open>
  \<open>unreached s k X\<close>: socket \<open>k\<close> is not in room \<open>X\<close> and has been sent nothing scoped
  to \<open>X\<close>.
\<close>

definition unreached :: "server \<Rightarrow> nat \<Rightarrow> int \<Rightarrow> bool" where
  "unreached s k X =
     (k \<notin> rooms s X \<and> list_all (\<lambda>(k1, ev). k1 \<noteq> k \<or> scope ev \<noteq> Some X) (delivered s))"

text \<open>Every socket in a room is connected, and its user has the participant row of the chat.\<close>

definition rooms_ok :: "server \<Rightarrow> bool" where
  "rooms_ok s =
     (\<forall>k X. k \<in> rooms s X \<longrightarrow>
        (\<exists>u. map_of (sockets s) k = Some u \<and> participant_row (store s) X (claim_id u)))"

text \<open>What a step sent: the events delivered by the state \<open>s1\<close> beyond those of \<open>s\<close>.\<close>

definition news :: "server \<Rightarrow> server \<Rightarrow> (nat \<times> server_event) list" where
  "news s s1 = drop (length (delivered s)) (delivered s1)"

section \<open>An example store\<close>

text \<open>
  Users A, B and C; one direct chat, number 7, between A and B; no message yet; every
  call to the driver answered.
\<close>

definition example_db :: db where
  "example_db =
     \<lparr>users = [\<lparr>user_id = 1, username = ''A''\<rparr>, \<lparr>user_id = 2, username = ''B''\<rparr>,
               \<lparr>user_id = 3, username = ''C''\<rparr>],
      chats = [\<lparr>chat_id = 7, chat_name = None, is_group_chat = False, chat_created_at = 100\<rparr>],
      chat_participants = [(7, 1), (7, 2)],
      messages = [],
      chats_id_seq = 8,
      messages_id_seq = 1,
      now = 200,
      faults = []\<rparr>"



text \<open>
  A verifier that knows the tokens of A, B and C, and a process with the three of them
  connected, as sockets 0, 1 and 2, of which only B's socket is in the room of chat 7.
\<close>

definition example_libs :: libs where
  "example_libs =
     \<lparr>cookie_parse = (\<lambda>cs name. if name = ''accessToken'' \<and> cs \<noteq> ''other=1'' then Some cs else None),
      jwt_verify = (\<lambda>token.
         if token = ''token-of-A'' then Decoded \<lparr>claim_id = 1, claim_username = ''A''\<rparr>
         else if token = ''token-of-B'' then Decoded \<lparr>claim_id = 2, claim_username = ''B''\<rparr>
         else if token = ''token-of-C'' then Decoded \<lparr>claim_id = 3, claim_username = ''C''\<rparr>
         else if token = ''old-token'' then Thrown ''TokenExpiredError''
         else if token = ''not-yet'' then Thrown ''NotBeforeError''
         else Thrown ''JsonWebTokenError'')\<rparr>"

definition example_server :: server where
  "example_server =
     \<lparr>store = example_db,
      sockets = [(0, \<lparr>claim_id = 1, claim_username = ''A''\<rparr>),
                 (1, \<lparr>claim_id = 2, claim_username = ''B''\<rparr>),
                 (2, \<lparr>claim_id = 3, claim_username = ''C''\<rparr>)],
      rooms = (\<lambda>room. {})(7 := {1}),
      delivered = [],
      refused = [],
      next_socket = 3\<rparr>"

definition event_data :: "jsval \<Rightarrow> jsval \<Rightarrow> jsval \<Rightarrow> payload" where
  "event_data chatId content isTyping =
     \<lparr>p_chatId = chatId, p_content = content, p_isTyping = isTyping\<rparr>"

text \<open>The same process with the sockets of A and B both in the room of chat 7.\<close>

definition both_server :: server where
  "both_server = example_server\<lparr>rooms := (\<lambda>room. {})(7 := {0, 1})\<rparr>"

text \<open>
  An execution from the start: A, B and C connect; a chat of C and A is created, which
  gets number 8; B joins room 7; C asks for room 7 and then for room 8; A sends \<open>hi\<close> to
  chat 7; B is typing in chat 7.
\<close>

definition example_trace :: "event list" where
  "example_trace =
     [Connect (Some ''token-of-A''), Connect (Some ''token-of-B''), Connect (Some ''token-of-C''),
      CreateChat [3, 1] None False,
      Emit 1 (JoinChat (Some (event_data (JNum 7) JUndefined JUndefined))),
      Emit 2 (JoinChat (Some (event_data (JNum 7) JUndefined JUndefined))),
      Emit 2 (JoinChat (Some (event_data (JNum 8) JUndefined JUndefined))),
      Emit 0 (SendMessage (Some (event_data (JNum 7) (JStr ''hi'') JUndefined))),
      Emit 1 (Typing (Some (event_data (JNum 7) JUndefined (JBool True))))]"

section \<open>Properties of the store\<close>

lemma spend_tables [simp]:
  "users (spend d) = users d" "chats (spend d) = chats d"
  "chat_participants (spend d) = chat_participants d" "messages (spend d) = messages d"
  "chats_id_seq (spend d) = chats_id_seq d" "messages_id_seq (spend d) = messages_id_seq d"
  "now (spend d) = now d" "faults (spend d) = tl (faults d)"
  by (simp_all add: spend_def)

lemma no_faults [simp]:
  "faults d = [] \<Longrightarrow> \<not> rejected d" "faults d = [] \<Longrightarrow> spend d = d"
  by (simp_all add: rejected_def spend_def)

lemma chat_exists_spend [simp]: "chat_exists (spend d) c = chat_exists d c"
  by (simp add: chat_exists_def)

lemma participant_row_spend [simp]: "participant_row (spend d) c u = participant_row d c u"
  by (simp add: participant_row_def)

lemma find_chat_None: "(find (\<lambda>c. chat_id c = k) cs = None) = (k \<notin> chat_id ` set cs)"
  by (auto simp: find_None_iff)

lemma find_chat_Some: "k \<in> chat_id ` set cs \<Longrightarrow> \<exists>c. find (\<lambda>c. chat_id c = k) cs = Some c"
  using find_chat_None [of k cs] by auto

lemma participant_filter:
  "(filter (\<lambda>(c, u). u = userId \<and> c = chatId) ps \<noteq> []) = ((chatId, userId) \<in> set ps)"
  by (induction ps) auto

lemma findChatById_strict:
  "findChatById d chatId True =
     (if rejected d
      then (Inl (AppError 500 ''Could not find chat due to a server error.''), spend d)
      else if chat_exists d chatId
      then (Inr (find (\<lambda>c. chat_id c = chatId) (chats d)), spend d)
      else (Inl (AppError 404 (''Chat with ID '' @ toString chatId @ '' not found.'')), spend d))"
proof (cases "chat_exists d chatId")
  case True
  then obtain c where "find (\<lambda>c. chat_id c = chatId) (chats d) = Some c"
    using find_chat_Some by (auto simp: chat_exists_def)
  with True show ?thesis
    by (simp add: findChatById_def db_query_def)
next
  case False
  then have "find (\<lambda>c. chat_id c = chatId) (chats d) = None"
    by (simp add: chat_exists_def find_chat_None)
  with False show ?thesis
    by (simp add: findChatById_def db_query_def)
qed

lemma checkUserInChat_strict:
  "checkUserInChat d userId chatId True =
     (if rejected d
      then (Inl (AppError 500 ''Could not find chat due to a server error.''), spend d)
      else if \<not> chat_exists d chatId
      then (Inl (AppError 404 (''Chat with ID '' @ toString chatId @ '' not found.'')), spend d)
      else if rejected (spend d)
      then (Inl (AppError 500 ''Error verifying chat participation.''), spend (spend d))
      else if \<not> participant_row d chatId userId
      then (Inl (AppError 403 ''Access denied. You are not a participant in this chat.''),
            spend (spend d))
      else (Inr True, spend (spend d)))"
  by (simp add: checkUserInChat_def findChatById_strict db_query_def participant_filter
      participant_row_def)

lemma chat_id_with_participants [simp]: "chat_id (with_participants d me c) = chat_id c"
  by (simp add: with_participants_def)

section \<open>Properties of the socket layer\<close>

lemma news_append [simp]: "delivered s1 = delivered s @ xs \<Longrightarrow> news s s1 = xs"
  by (simp add: news_def)

lemma news_socket_emit [simp]:
  "news s (socket_emit s k ev) = [(k, ev)]"
  "news s (socket_emit (s\<lparr>store := d\<rparr>) k ev) = [(k, ev)]"
  by (simp_all add: news_def socket_emit_def)

lemma news_io_to_emit [simp]:
  "news s (io_to_emit (s\<lparr>store := d\<rparr>) c ev)
     = map (\<lambda>k. (k, ev)) (filter (\<lambda>k. k \<in> rooms s c) (map fst (sockets s)))"
  by (simp add: news_def io_to_emit_def)

lemma news_same [simp]: "news s s = []"
  by (simp add: news_def)

lemma run_Cons [simp]: "run L s (e # es) = run L (step L s e) es"
  by (simp add: run_def)

lemma run_Nil [simp]: "run L s [] = s"
  by (simp add: run_def)

section \<open>The membership guard\<close>



section \<open>Chat creation\<close>

lemma abort_tables:
  "abort d0 w err = (r, d') \<Longrightarrow>
     chats d' = chats d0 \<and> chat_participants d' = chat_participants d0"
  by (auto simp: abort_def createChat_catch_def discard_def db_query_def Let_def
      split: prod.splits if_splits error.splits)

lemma findUserById_tables:
  "findUserById d u b = (r, d') \<Longrightarrow>
     chats d' = chats d \<and> chat_participants d' = chat_participants d"
  by (auto simp: findUserById_def db_query_def Let_def split: if_splits option.splits)

lemma validate_users_tables:
  "validate_users d us = (r, d') \<Longrightarrow>
     chats d' = chats d \<and> chat_participants d' = chat_participants d"
proof (induction us arbitrary: d)
  case Nil
  then show ?case by simp
next
  case (Cons u us)
  then show ?case
    by (auto split: prod.splits sum.splits dest!: findUserById_tables)
qed

lemma insert_chat_tables:
  "insert_chat w n g = (Some c, w') \<Longrightarrow>
     chats w' = chats w @ [c] \<and> chat_participants w' = chat_participants w"
  by (auto simp: insert_chat_def db_query_def Let_def split: if_splits option.splits)

lemma insert_participants_tables:
  "insert_participants w c us = (True, w') \<Longrightarrow>
     chats w' = chats w \<and> chat_participants w' = chat_participants w @ map (Pair c) us"
proof (induction us arbitrary: w)
  case Nil
  then show ?case by simp
next
  case (Cons u us)
  then show ?case
    by (auto simp: insert_participant_def db_query_def Let_def
        split: prod.splits bool.splits if_splits)
qed

lemma getUserChatsWithParticipants_tables:
  "getUserChatsWithParticipants d c u = (r, d') \<Longrightarrow>
     chats d' = chats d \<and> chat_participants d' = chat_participants d"
  by (auto simp: getUserChatsWithParticipants_def db_query_def Let_def split: if_splits)

lemma createChat_catch_tables:
  "createChat_catch d e = (r, d') \<Longrightarrow>
     chats d' = chats d \<and> chat_participants d' = chat_participants d"
  by (auto simp: createChat_catch_def db_query_def Let_def split: if_splits error.splits)

text \<open>
  Whatever \<open>createChat\<close> returns, the two tables are afterwards either as they were, or
  hold the new chat together with the rows of all its participants: a chat with only some
  of its participants is never stored.
\<close>

lemma createChat_all_or_nothing:
  assumes "createChat d userIds name isGroupChat = (r, d')"
  shows "(chats d' = chats d \<and> chat_participants d' = chat_participants d)
       \<or> (\<exists>c. chats d' = chats d @ [c]
              \<and> chat_participants d' = chat_participants d @ map (Pair (chat_id c)) userIds)"
  using assms
  apply (simp add: createChat_def db_query_def Let_def
      split: prod.splits sum.splits option.splits bool.splits if_splits)
  apply (auto dest!: abort_tables validate_users_tables insert_chat_tables
      insert_participants_tables getUserChatsWithParticipants_tables createChat_catch_tables)
  done

text \<open>
  A failure with an \<open>AppError\<close> other than the one of the detail query -- the 404 of an
  unknown user, the 500 of a rejected or refused statement -- leaves both tables as they
  were.
\<close>

lemma createChat_failure_unchanged:
  assumes "createChat d userIds name isGroupChat = (Inl (AppError code m), d')"
    and "m \<noteq> ''Could not retrieve detailed chat information.''"
  shows "chats d' = chats d \<and> chat_participants d' = chat_participants d"
  using assms
  by (auto simp: createChat_def db_query_def Let_def getUserChatsWithParticipants_def
      createChat_catch_def
      split: prod.splits sum.splits option.splits bool.splits if_splits dest!: abort_tables)

text \<open>
  C2. A failure of \<open>createChat\<close> after \<^verbatim>\<open>BEGIN\<close> should leave no row of the attempted
  chat. The query of \<open>getUserChatsWithParticipants\<close> runs after \<^verbatim>\<open>COMMIT\<close>, inside the
  same \<^verbatim>\<open>try\<close>: when the driver rejects it, with the eight calls before it answered,
  \<open>createChat [1, 3]\<close> fails with the 500 of that query, and chat 8, which was not there
  before, is stored with both its participant rows.
\<close>

theorem createChat_fails_after_commit:
  "(case createChat
           (example_db\<lparr>faults := [False, False, False, False, False, False, False, False, True]\<rparr>)
           [1, 3] None False of
      (r, d') \<Rightarrow>
        r = Inl (AppError 500 ''Could not retrieve detailed chat information.'')
        \<and> \<not> chat_exists example_db 8
        \<and> fst (findChatById d' 8 False)
            = Inr (Some \<lparr>chat_id = 8, chat_name = None, is_group_chat = False,
                         chat_created_at = 200\<rparr>)
        \<and> participant_row d' 8 1 \<and> participant_row d' 8 3)"
  by (simp add: example_db_def createChat_def db_query_def rejected_def spend_def
      findUserById_def insert_chat_def varchar255_def insert_participant_def
      getUserChatsWithParticipants_def createChat_catch_def findChatById_def
      chat_exists_def participant_row_def Let_def)

section \<open>Searching chats\<close>





























text \<open>
  The term goes into the pattern as it is, so its wildcards act as wildcards: B searches for
  \<open>_\<close>, which no name contains, and gets chat 7, because \<open>A\<close> is one character long.
\<close>

lemma searchUserChats_wildcard_term:
  "map chat_id (projr (fst (searchUserChats example_db 2 ''_''))) = [7]
   \<and> \<not> search_match example_db 2 ''_''
        \<lparr>chat_id = 7, chat_name = None, is_group_chat = False, chat_created_at = 100\<rparr>"
  by code_simp


section \<open>Reading messages\<close>





section \<open>The event handlers\<close>

lemma parseInt_positive_truthy:
  assumes "parseInt v = Some c" and "0 < c"
  shows "truthy v"
proof (cases v)
  case (JNum n)
  have "parseInt (JNum 0) = Some 0"
    by code_simp
  with assms JNum show ?thesis by (cases "n = 0") auto
next
  case (JStr s)
  with assms show ?thesis by (auto simp: parseInt_def parseInt_string_def)
next
  case JUndefined
  with assms show ?thesis
    by (simp add: parseInt_def parseInt_string_def is_ws_def is_digit_def)
next
  case JNull
  with assms show ?thesis
    by (simp add: parseInt_def parseInt_string_def is_ws_def is_digit_def)
next
  case (JBool b)
  with assms show ?thesis
    by (cases b) (simp_all add: parseInt_def parseInt_string_def is_ws_def is_digit_def)
qed

lemma event_chatId_positive:
  "parseInt (p_chatId p) = Some c \<Longrightarrow> 0 < c \<Longrightarrow> event_chatId (Some p) = Some c"
  by (simp add: event_chatId_def parseInt_positive_truthy)

text \<open>
  C9. A \<^verbatim>\<open>leaveChat\<close> event from a connected socket whose \<^verbatim>\<open>chatId\<close> parses to a
  positive integer: the socket is sent \<^verbatim>\<open>chatLeft\<close> with that id, and is taken out of
  that room if it was in it. Nothing is asked of the store -- neither that the chat exists
  nor that the socket was in the room -- and the store, the connections, and the rooms as
  far as other sockets go, stay as they were.
\<close>

theorem leaveChat_confirms:
  assumes "map_of (sockets s) k = Some u"
    and "parseInt (p_chatId p) = Some c" and "0 < c"
  shows "delivered (step L s (Emit k (LeaveChat (Some p))))
           = delivered s @ [(k, ChatLeft c (''Successfully left chat '' @ toString c))]
       \<and> rooms (step L s (Emit k (LeaveChat (Some p)))) c = rooms s c - {k}
       \<and> (\<forall>room k1. k1 \<noteq> k \<longrightarrow>
            (k1 \<in> rooms (step L s (Emit k (LeaveChat (Some p)))) room) = (k1 \<in> rooms s room))
       \<and> store (step L s (Emit k (LeaveChat (Some p)))) = store s
       \<and> sockets (step L s (Emit k (LeaveChat (Some p)))) = sockets s"
  using assms
  by (simp add: on_leaveChat_def event_chatId_positive invalid_chatId_def socket_emit_def
      socket_leave_def)


theorem leaveChat_confirms_witness:
  "map_of (sockets example_server) 0 = Some \<lparr>claim_id = 1, claim_username = ''A''\<rparr>
   \<and> parseInt (p_chatId (event_data (JStr ''99'') JUndefined JUndefined)) = Some 99 \<and> (0::int) < 99
   \<and> \<not> chat_exists (store example_server) 99 \<and> 0 \<notin> rooms example_server 99
   \<and> delivered (step example_libs example_server
        (Emit 0 (LeaveChat (Some (event_data (JStr ''99'') JUndefined JUndefined)))))
       = [(0, ChatLeft 99 ''Successfully left chat 99'')]"
proof -
  have h: "map_of (sockets example_server) 0 = Some \<lparr>claim_id = 1, claim_username = ''A''\<rparr>"
    "parseInt (p_chatId (event_data (JStr ''99'') JUndefined JUndefined)) = Some 99" "(0::int) < 99"
    by code_simp+
  have "\<not> chat_exists (store example_server) 99" "0 \<notin> rooms example_server 99"
    "delivered example_server = []" "toString 99 = ''99''"
    by code_simp+
  then show ?thesis
    using h leaveChat_confirms [OF h, of example_libs] by simp
qed

lemma createMessage_fields:
  "createMessage d c u t = (Inr m, d1) \<Longrightarrow>
     msg_chat_id m = c \<and> msg_sender_id m = u \<and> msg_content m = t"
  by (auto simp: createMessage_def insert_message_def db_query_def Let_def
      split: prod.splits sum.splits option.splits if_splits)





lemma on_sendMessage_news:
  "(\<exists>x. news s (on_sendMessage s k u data) = [(k, SocketError ''sendMessage'' x)])
   \<or> (\<exists>m. news s (on_sendMessage s k u data)
            = map (\<lambda>k1. (k1, NewMessage m))
                (filter (\<lambda>k1. k1 \<in> rooms s (msg_chat_id m)) (map fst (sockets s))))"
proof -
  let ?c = "the (event_chatId data)" and ?t = "the (event_content data)"
  obtain r d1 where cm: "createMessage (store s) ?c (claim_id u) ?t = (r, d1)"
    by (cases "createMessage (store s) ?c (claim_id u) ?t")
  show ?thesis
  proof (cases r)
    case (Inl e)
    with cm have "\<exists>x. news s (on_sendMessage s k u data) = [(k, SocketError ''sendMessage'' x)]"
      by (simp add: on_sendMessage_def socket_emit_def Let_def)
    then show ?thesis ..
  next
    case (Inr m)
    with cm have c: "msg_chat_id m = ?c"
      using createMessage_fields by blast
    from Inr cm have "(\<exists>x. news s (on_sendMessage s k u data) = [(k, SocketError ''sendMessage'' x)])
       \<or> news s (on_sendMessage s k u data)
            = map (\<lambda>k1. (k1, NewMessage m))
                (filter (\<lambda>k1. k1 \<in> rooms s ?c) (map fst (sockets s)))"
      by (simp add: on_sendMessage_def socket_emit_def io_to_emit_def Let_def)
    with c show ?thesis by metis
  qed
qed

text \<open>
  C5. From a connected socket \<open>k\<close>: an accepted \<^verbatim>\<open>typing\<close> event sends
  \<^verbatim>\<open>userTyping\<close> to every connected socket in the room except \<open>k\<close>, and nothing to
  \<open>k\<close>; and whenever a \<^verbatim>\<open>sendMessage\<close> event makes the server send a \<^verbatim>\<open>newMessage\<close>,
  every connected socket in the room of that message is sent it, \<open>k\<close> included when \<open>k\<close>
  is in the room.
\<close>

theorem broadcast_asymmetry:
  assumes "map_of (sockets s) k = Some u"
  shows "(parseInt (p_chatId p) = Some c \<and> 0 < c \<and> p_isTyping p = JBool b \<longrightarrow>
            news s (step L s (Emit k (Typing (Some p))))
              = map (\<lambda>k1. (k1, UserTyping (claim_id u) (claim_username u) c b))
                  (filter (\<lambda>k1. k1 \<in> rooms s c \<and> k1 \<noteq> k) (map fst (sockets s)))
            \<and> (\<forall>k1 \<in> fst ` set (sockets s). k1 \<in> rooms s c \<and> k1 \<noteq> k \<longrightarrow>
                 (k1, UserTyping (claim_id u) (claim_username u) c b)
                   \<in> set (news s (step L s (Emit k (Typing (Some p))))))
            \<and> (\<forall>ev. (k, ev) \<notin> set (news s (step L s (Emit k (Typing (Some p)))))))
       \<and> (\<forall>m k0. (k0, NewMessage m) \<in> set (news s (step L s (Emit k (SendMessage data)))) \<longrightarrow>
            (\<forall>k1 \<in> fst ` set (sockets s). k1 \<in> rooms s (msg_chat_id m) \<longrightarrow>
               (k1, NewMessage m) \<in> set (news s (step L s (Emit k (SendMessage data)))))
            \<and> (k \<in> rooms s (msg_chat_id m) \<longrightarrow>
                 (k, NewMessage m) \<in> set (news s (step L s (Emit k (SendMessage data))))))"
proof (intro conjI impI allI)
  assume "parseInt (p_chatId p) = Some c \<and> 0 < c \<and> p_isTyping p = JBool b"
  then have "delivered (step L s (Emit k (Typing (Some p))))
     = delivered s @ map (\<lambda>k1. (k1, UserTyping (claim_id u) (claim_username u) c b))
                  (filter (\<lambda>k1. k1 \<in> rooms s c \<and> k1 \<noteq> k) (map fst (sockets s)))"
    using assms
    by (simp add: on_typing_def event_chatId_positive invalid_chatId_def event_isTyping_def
        socket_to_emit_def)
  then have n: "news s (step L s (Emit k (Typing (Some p))))
     = map (\<lambda>k1. (k1, UserTyping (claim_id u) (claim_username u) c b))
         (filter (\<lambda>k1. k1 \<in> rooms s c \<and> k1 \<noteq> k) (map fst (sockets s)))"
    by simp
  show "news s (step L s (Emit k (Typing (Some p))))
     = map (\<lambda>k1. (k1, UserTyping (claim_id u) (claim_username u) c b))
         (filter (\<lambda>k1. k1 \<in> rooms s c \<and> k1 \<noteq> k) (map fst (sockets s)))"
    by (rule n)
  show "\<forall>k1 \<in> fst ` set (sockets s). k1 \<in> rooms s c \<and> k1 \<noteq> k \<longrightarrow>
          (k1, UserTyping (claim_id u) (claim_username u) c b)
            \<in> set (news s (step L s (Emit k (Typing (Some p)))))"
    unfolding n by auto
  show "\<And>ev. (k, ev) \<notin> set (news s (step L s (Emit k (Typing (Some p)))))"
    unfolding n by auto
next
  fix m k0
  assume got: "(k0, NewMessage m) \<in> set (news s (step L s (Emit k (SendMessage data))))"
  have st: "step L s (Emit k (SendMessage data)) = on_sendMessage s k u data"
    using assms by simp
  from on_sendMessage_news [of s k u data] got
  have n: "news s (step L s (Emit k (SendMessage data)))
            = map (\<lambda>k1. (k1, NewMessage m))
                (filter (\<lambda>k1. k1 \<in> rooms s (msg_chat_id m)) (map fst (sockets s)))"
    unfolding st by auto
  show "\<forall>k1 \<in> fst ` set (sockets s). k1 \<in> rooms s (msg_chat_id m) \<longrightarrow>
               (k1, NewMessage m) \<in> set (news s (step L s (Emit k (SendMessage data))))"
    unfolding n by auto
  have "k \<in> fst ` set (sockets s)"
    using assms by (metis fst_conv image_eqI map_of_SomeD)
  then show "k \<in> rooms s (msg_chat_id m) \<Longrightarrow>
                 (k, NewMessage m) \<in> set (news s (step L s (Emit k (SendMessage data))))"
    unfolding n by auto
qed



theorem broadcast_asymmetry_witness:
  "map_of (sockets both_server) 0 = Some \<lparr>claim_id = 1, claim_username = ''A''\<rparr>
   \<and> parseInt (p_chatId (event_data (JNum 7) JUndefined (JBool True))) = Some 7 \<and> (0::int) < 7
   \<and> p_isTyping (event_data (JNum 7) JUndefined (JBool True)) = JBool True
   \<and> rooms both_server 7 = {0, 1}
   \<and> news both_server (step example_libs both_server
         (Emit 0 (Typing (Some (event_data (JNum 7) JUndefined (JBool True))))))
       = [(1, UserTyping 1 ''A'' 7 True)]
   \<and> map fst (news both_server (step example_libs both_server
         (Emit 0 (SendMessage (Some (event_data (JNum 7) (JStr ''hi'') JUndefined))))))
       = [0, 1]
   \<and> (0, NewMessage \<lparr>msg_id = 1, msg_chat_id = 7, msg_sender_id = 1, msg_content = ''hi'',
                       msg_created_at = 200, msg_sender = (1, ''A'')\<rparr>)
       \<in> set (news both_server (step example_libs both_server
         (Emit 0 (SendMessage (Some (event_data (JNum 7) (JStr ''hi'') JUndefined))))))"
proof -
  have h: "map_of (sockets both_server) 0 = Some \<lparr>claim_id = 1, claim_username = ''A''\<rparr>"
    by code_simp
  have t: "parseInt (p_chatId (event_data (JNum 7) JUndefined (JBool True))) = Some 7 \<and> (0::int) < 7
     \<and> p_isTyping (event_data (JNum 7) JUndefined (JBool True)) = JBool True"
    by code_simp
  have r: "rooms both_server 7 = {0, 1}"
    "filter (\<lambda>k1. k1 \<in> rooms both_server 7 \<and> k1 \<noteq> 0) (map fst (sockets both_server)) = [1]"
    by (simp_all add: both_server_def example_server_def)
  have sent: "news both_server (step example_libs both_server
         (Emit 0 (SendMessage (Some (event_data (JNum 7) (JStr ''hi'') JUndefined)))))
       = [(0, NewMessage \<lparr>msg_id = 1, msg_chat_id = 7, msg_sender_id = 1, msg_content = ''hi'',
                       msg_created_at = 200, msg_sender = (1, ''A'')\<rparr>),
          (1, NewMessage \<lparr>msg_id = 1, msg_chat_id = 7, msg_sender_id = 1, msg_content = ''hi'',
                       msg_created_at = 200, msg_sender = (1, ''A'')\<rparr>)]"
    by code_simp
  show ?thesis
    using h t r sent
      broadcast_asymmetry [OF h, of "event_data (JNum 7) JUndefined (JBool True)" 7 True example_libs
        "Some (event_data (JNum 7) (JStr ''hi'') JUndefined)"]
    by (simp del: step.simps)
qed


section \<open>Trimming of the content\<close>

lemma findUserById_messages:
  "findUserById d u b = (r, d1) \<Longrightarrow> messages d1 = messages d"
  by (auto simp: findUserById_def db_query_def Let_def split: if_splits option.splits)

lemma checkUserInChat_messages:
  "checkUserInChat d u c b = (r, d1) \<Longrightarrow> messages d1 = messages d"
  by (auto simp: checkUserInChat_def findChatById_def db_query_def Let_def
      split: prod.splits sum.splits if_splits option.splits)

lemma insert_message_messages:
  "insert_message d c u t = (r, d1) \<Longrightarrow>
     (r = None \<and> messages d1 = messages d)
     \<or> (\<exists>row. r = Some row \<and> messages d1 = messages d @ [row]
           \<and> msg_chat_id row = c \<and> msg_sender_id row = u \<and> msg_content row = t)"
  by (auto simp: insert_message_def db_query_def Let_def split: if_splits)

text \<open>Every row that \<open>createMessage\<close> writes carries the content it was given.\<close>

lemma createMessage_persists:
  assumes "createMessage d c u t = (r, d1)"
  shows "(isl r \<and> messages d1 = messages d)
       \<or> (\<exists>row. messages d1 = messages d @ [row]
             \<and> msg_chat_id row = c \<and> msg_sender_id row = u \<and> msg_content row = t)"
proof -
  obtain r0 d0 where ck: "checkUserInChat d u c True = (r0, d0)"
    by (cases "checkUserInChat d u c True")
  then have m0: "messages d0 = messages d"
    by (rule checkUserInChat_messages)
  show ?thesis
  proof (cases r0)
    case (Inl e)
    with ck assms m0 show ?thesis by (auto simp: createMessage_def)
  next
    case (Inr ok)
    obtain r2 d2 where ins: "insert_message d0 c u t = (r2, d2)"
      by (cases "insert_message d0 c u t")
    show ?thesis
    proof (cases r2)
      case None
      with ins have "messages d2 = messages d0"
        using insert_message_messages by blast
      with None ins Inr ck assms m0 show ?thesis by (auto simp: createMessage_def)
    next
      case (Some row)
      with ins have row: "messages d2 = messages d0 @ [row]"
        "msg_chat_id row = c" "msg_sender_id row = u" "msg_content row = t"
        using insert_message_messages [OF ins] by auto
      obtain r3 d3 where f: "findUserById d2 (msg_sender_id row) False = (r3, d3)"
        by (cases "findUserById d2 (msg_sender_id row) False")
      then have "messages d3 = messages d2"
        by (rule findUserById_messages)
      moreover have "d1 = d3"
        using assms ck Inr ins Some f
        by (auto simp: createMessage_def split: sum.splits option.splits)
      ultimately show ?thesis using row m0 by auto
    qed
  qed
qed

lemma createMessage_Inr_persists:
  assumes "createMessage d c u t = (Inr m, d1)"
  shows "\<exists>row. messages d1 = messages d @ [row] \<and> msg_content row = t \<and> msg_content m = t"
  using createMessage_persists [OF assms] createMessage_fields [OF assms] by auto


lemma createMessage_error:
  assumes "createMessage d c u t = (Inl e, d1)"
  shows "isOperational e
       \<and> message e \<noteq> ''Message content is too long (max 2000 characters).''
       \<and> e \<noteq> AppError 400 ''Message content is too long (max 2000 characters).''"
  using assms
  by (auto simp: createMessage_def checkUserInChat_def findChatById_def findUserById_def
      insert_message_def db_query_def Let_def
      split: prod.splits sum.splits option.splits if_splits)

lemma content_checks_trimmed:
  fixes L :: libs and s :: server and k :: nat and p :: payload
    and d :: db and reqUser :: claim and param :: string and raw :: string
  defines "s1 \<equiv> step L s (Emit k (SendMessage (Some p)))"
    and "h \<equiv> createMessageHandler d reqUser param (JStr raw)"
  assumes "map_of (sockets s) k = Some u"
    and "parseInt (p_chatId p) = Some c" and "parseInt_string param = Some c" and "0 < c"
    and "p_content p = JStr raw"
  shows "(\<forall>m k0. (k0, NewMessage m) \<in> set (news s s1) \<longrightarrow>
            msg_content m = trim raw
            \<and> (\<exists>row. messages (store s1) = messages (store s) @ [row]
                  \<and> msg_content row = trim raw))
       \<and> (messages (store s1) = messages (store s)
            \<or> (\<exists>row. messages (store s1) = messages (store s) @ [row]
                  \<and> msg_content row = trim raw))
       \<and> (trim raw = [] \<longrightarrow>
            news s s1 = [(k, SocketError ''sendMessage'' ''Message content cannot be empty.'')]
            \<and> store s1 = store s)
       \<and> (trim raw \<noteq> [] \<longrightarrow>
            ((k, SocketError ''sendMessage''
                   ''Message content is too long (max 2000 characters).'') \<in> set (news s s1))
              = (2000 < length (trim raw)))
       \<and> (\<forall>status m d1. h = (Inr (status, m), d1) \<longrightarrow>
            msg_content m = trim raw
            \<and> (\<exists>row. messages d1 = messages d @ [row] \<and> msg_content row = trim raw))
       \<and> (trim raw = [] \<longrightarrow>
            h = (Inl (AppError 400 ''Message content cannot be empty.''), d))
       \<and> (trim raw \<noteq> [] \<longrightarrow>
            (fst h = Inl (AppError 400 ''Message content is too long (max 2000 characters).''))
              = (2000 < length (trim raw)))"
proof -
  obtain r d2 where cm: "createMessage (store s) c (claim_id u) (trim raw) = (r, d2)"
    by (cases "createMessage (store s) c (claim_id u) (trim raw)")
  have id: "event_chatId (Some p) = Some c"
    using assms by (simp add: event_chatId_positive)
  have s1: "s1 =
     (if trim raw = []
      then socket_emit s k (SocketError ''sendMessage'' ''Message content cannot be empty.'')
      else if 2000 < length (trim raw)
      then socket_emit s k
             (SocketError ''sendMessage'' ''Message content is too long (max 2000 characters).'')
      else (case r of
              Inl e \<Rightarrow> socket_emit (s\<lparr>store := d2\<rparr>) k (SocketError ''sendMessage'' (message e))
            | Inr m \<Rightarrow> io_to_emit (s\<lparr>store := d2\<rparr>) c (NewMessage m)))"
  proof (cases r)
    case (Inl e)
    with cm have "isOperational e" using createMessage_error by blast
    with Inl cm id assms show ?thesis
      by (simp add: s1_def on_sendMessage_def invalid_chatId_def event_content_def)
  next
    case (Inr m)
    with cm id assms show ?thesis
      by (simp add: s1_def on_sendMessage_def invalid_chatId_def event_content_def)
  qed
  have socket_part: "(\<forall>m k0. (k0, NewMessage m) \<in> set (news s s1) \<longrightarrow>
            msg_content m = trim raw
            \<and> (\<exists>row. messages (store s1) = messages (store s) @ [row]
                  \<and> msg_content row = trim raw))
       \<and> (messages (store s1) = messages (store s)
            \<or> (\<exists>row. messages (store s1) = messages (store s) @ [row]
                  \<and> msg_content row = trim raw))
       \<and> (trim raw \<noteq> [] \<longrightarrow>
            ((k, SocketError ''sendMessage''
                   ''Message content is too long (max 2000 characters).'') \<in> set (news s s1))
              = (2000 < length (trim raw)))"
  proof (cases r)
    case (Inl e)
    with cm have "message e \<noteq> ''Message content is too long (max 2000 characters).''"
      using createMessage_error by blast
    moreover have "messages d2 = messages (store s)
        \<or> (\<exists>row. messages d2 = messages (store s) @ [row] \<and> msg_content row = trim raw)"
      using createMessage_persists [OF cm] by auto
    ultimately show ?thesis
      using Inl by (auto simp: s1 socket_emit_def news_def)
  next
    case (Inr m)
    with cm have "msg_content m = trim raw"
      "\<exists>row. messages d2 = messages (store s) @ [row] \<and> msg_content row = trim raw"
      using createMessage_Inr_persists by blast+
    then show ?thesis
      using Inr by (auto simp: s1 socket_emit_def io_to_emit_def news_def)
  qed
  have ws: "trim raw = [] \<longrightarrow>
            news s s1 = [(k, SocketError ''sendMessage'' ''Message content cannot be empty.'')]
            \<and> store s1 = store s"
    by (simp add: s1 socket_emit_def news_def)
  obtain r3 d3 where hm: "createMessage d c (claim_id reqUser) (trim raw) = (r3, d3)"
    by (cases "createMessage d c (claim_id reqUser) (trim raw)")
  have nonempty: "trim raw \<noteq> [] \<Longrightarrow> raw \<noteq> []"
    by (auto simp: trim_def)
  have h: "h =
     (if trim raw = [] then (Inl (AppError 400 ''Message content cannot be empty.''), d)
      else if 2000 < length (trim raw)
      then (Inl (AppError 400 ''Message content is too long (max 2000 characters).''), d)
      else (case r3 of Inl e \<Rightarrow> (Inl e, d3) | Inr m \<Rightarrow> (Inr (201, m), d3)))"
    using assms hm nonempty
    by (cases r3) (auto simp: h_def createMessageHandler_def Let_def)
  have http_part: "(\<forall>status m d1. h = (Inr (status, m), d1) \<longrightarrow>
            msg_content m = trim raw
            \<and> (\<exists>row. messages d1 = messages d @ [row] \<and> msg_content row = trim raw))
       \<and> (trim raw = [] \<longrightarrow>
            h = (Inl (AppError 400 ''Message content cannot be empty.''), d))
       \<and> (trim raw \<noteq> [] \<longrightarrow>
            (fst h = Inl (AppError 400 ''Message content is too long (max 2000 characters).''))
              = (2000 < length (trim raw)))"
  proof (cases r3)
    case (Inl e)
    with hm have "e \<noteq> AppError 400 ''Message content is too long (max 2000 characters).''"
      using createMessage_error by blast
    with Inl show ?thesis by (auto simp: h)
  next
    case (Inr m)
    with hm have "msg_content m = trim raw"
      "\<exists>row. messages d3 = messages d @ [row] \<and> msg_content row = trim raw"
      using createMessage_Inr_persists by blast+
    with Inr show ?thesis by (auto simp: h)
  qed
  from socket_part ws http_part show ?thesis by blast
qed


lemma event_content_Some:
  "event_content data = Some t \<Longrightarrow> \<exists>p raw. data = Some p \<and> p_content p = JStr raw \<and> t = trim raw"
  by (auto simp: event_content_def split: option.splits jsval.splits)

lemma on_sendMessage_accepted:
  assumes "(k0, NewMessage m) \<in> set (news s (on_sendMessage s k u data))"
  shows "\<exists>p raw. data = Some p \<and> p_content p = JStr raw \<and> msg_content m = trim raw
           \<and> (\<exists>row. messages (store (on_sendMessage s k u data)) = messages (store s) @ [row]
                 \<and> msg_content row = trim raw)"
proof -
  let ?c = "the (event_chatId data)" and ?t = "the (event_content data)"
  obtain r d1 where cm: "createMessage (store s) ?c (claim_id u) ?t = (r, d1)"
    by (cases "createMessage (store s) ?c (claim_id u) ?t")
  have v1: "\<not> invalid_chatId (event_chatId data)"
  proof
    assume "invalid_chatId (event_chatId data)"
    then have "\<exists>x. news s (on_sendMessage s k u data) = [(k, SocketError ''sendMessage'' x)]"
      by (simp add: on_sendMessage_def)
    with assms show False by auto
  qed
  have v2: "\<exists>t. event_content data = Some t \<and> t \<noteq> []"
  proof (rule ccontr)
    assume "\<not> (\<exists>t. event_content data = Some t \<and> t \<noteq> [])"
    then have "(case event_content data of None \<Rightarrow> True | Some c \<Rightarrow> c = [])"
      by (cases "event_content data") auto
    with v1 have "\<exists>x. news s (on_sendMessage s k u data) = [(k, SocketError ''sendMessage'' x)]"
      by (simp add: on_sendMessage_def)
    with assms show False by auto
  qed
  then have ne: "\<not> (case event_content data of None \<Rightarrow> True | Some c \<Rightarrow> c = [])"
    by auto
  have v3: "\<not> 2000 < length ?t"
  proof
    assume "2000 < length ?t"
    with v1 ne have "\<exists>x. news s (on_sendMessage s k u data) = [(k, SocketError ''sendMessage'' x)]"
      by (simp add: on_sendMessage_def)
    with assms show False by auto
  qed
  have st: "on_sendMessage s k u data =
      (case r of
         Inl e \<Rightarrow> socket_emit (s\<lparr>store := d1\<rparr>) k
                    (SocketError ''sendMessage''
                       (if isOperational e then message e
                        else ''Failed to send message. An unexpected error occurred.''))
       | Inr newMessage \<Rightarrow> io_to_emit (s\<lparr>store := d1\<rparr>) ?c (NewMessage newMessage))"
    using v1 ne v3 cm by (cases r) (simp_all add: on_sendMessage_def)
  obtain m1 where r: "r = Inr m1"
  proof (cases r)
    case (Inl e)
    with st have "\<exists>x. news s (on_sendMessage s k u data) = [(k, SocketError ''sendMessage'' x)]"
      by simp
    with assms show ?thesis by auto
  next
    case (Inr m1)
    then show ?thesis by (rule that)
  qed
  from v2 obtain p raw where d: "data = Some p" "p_content p = JStr raw" "?t = trim raw"
    using event_content_Some by fastforce
  from st r have st2: "on_sendMessage s k u data = io_to_emit (s\<lparr>store := d1\<rparr>) ?c (NewMessage m1)"
    by simp
  with assms have "m = m1"
    by auto
  moreover have "msg_content m1 = trim raw"
    "\<exists>row. messages d1 = messages (store s) @ [row] \<and> msg_content row = trim raw"
    using createMessage_Inr_persists cm r d(3) by metis+
  ultimately show ?thesis
    using d unfolding st2 by (auto simp: io_to_emit_def)
qed

lemma createMessageHandler_accepted:
  assumes "createMessageHandler d reqUser param content = (Inr (status, m), d1)"
  shows "\<exists>raw. content = JStr raw \<and> status = 201 \<and> msg_content m = trim raw
           \<and> (\<exists>row. messages d1 = messages d @ [row] \<and> msg_content row = trim raw)"
proof -
  let ?bad_id = "(case parseInt_string param of None \<Rightarrow> True | Some n \<Rightarrow> n \<le> 0)"
  let ?empty = "\<not> truthy content \<or> (case content of JStr c \<Rightarrow> trim c = [] | other \<Rightarrow> True)"
  let ?long = "2000 < length (trim (ToString content))"
  let ?call = "createMessage d (the (parseInt_string param)) (claim_id reqUser)
                 (trim (ToString content))"
  have "\<not> ?bad_id" "\<not> ?empty" "\<not> ?long"
    using assms by (auto simp: createMessageHandler_def Let_def split: if_splits)
  then have h: "createMessageHandler d reqUser param content =
      (case ?call of (Inl e, d2) \<Rightarrow> (Inl e, d2) | (Inr newMessage, d2) \<Rightarrow> (Inr (201, newMessage), d2))"
    by (simp add: createMessageHandler_def Let_def)
  from \<open>\<not> ?empty\<close> obtain raw where raw: "content = JStr raw"
    by (cases content) auto
  from assms h have "?call = (Inr m, d1)" "status = 201"
    by (auto split: prod.splits sum.splits)
  then show ?thesis
    using raw createMessage_Inr_persists by fastforce
qed


text \<open>
  C10. The content is trimmed before it is checked and before it is stored, on the socket
  event and on the HTTP request alike. Every \<^verbatim>\<open>newMessage\<close> that a \<^verbatim>\<open>sendMessage\<close>
  event makes the server send, and every message that the HTTP handler returns, comes from
  a string content and carries that string trimmed, and the row written carries the same.
  For a valid chat id and a string content: whatever row the event writes carries the
  trimmed content; a content that trims to nothing is rejected as empty on both paths, and
  nothing is written; the rejection as too long happens, on both paths, exactly when the
  trimmed content is longer than 2000.
\<close>

theorem content_is_trimmed:
  "(\<forall>m k0. (k0, NewMessage m) \<in> set (news s (step L s (Emit k (SendMessage data)))) \<longrightarrow>
       (\<exists>p raw. data = Some p \<and> p_content p = JStr raw \<and> msg_content m = trim raw
          \<and> (\<exists>row. messages (store (step L s (Emit k (SendMessage data))))
                      = messages (store s) @ [row]
                \<and> msg_content row = trim raw)))
   \<and> (\<forall>status m d1. createMessageHandler d reqUser param content = (Inr (status, m), d1) \<longrightarrow>
       (\<exists>raw. content = JStr raw \<and> msg_content m = trim raw
          \<and> (\<exists>row. messages d1 = messages d @ [row] \<and> msg_content row = trim raw)))
   \<and> (map_of (sockets s) k = Some u \<and> parseInt (p_chatId q) = Some c
        \<and> parseInt_string param = Some c \<and> 0 < c \<and> p_content q = JStr text \<longrightarrow>
       (messages (store (step L s (Emit k (SendMessage (Some q))))) = messages (store s)
          \<or> (\<exists>row. messages (store (step L s (Emit k (SendMessage (Some q)))))
                      = messages (store s) @ [row]
                \<and> msg_content row = trim text))
       \<and> (trim text = [] \<longrightarrow>
            news s (step L s (Emit k (SendMessage (Some q))))
              = [(k, SocketError ''sendMessage'' ''Message content cannot be empty.'')]
            \<and> store (step L s (Emit k (SendMessage (Some q)))) = store s
            \<and> createMessageHandler d reqUser param (JStr text)
                = (Inl (AppError 400 ''Message content cannot be empty.''), d))
       \<and> (trim text \<noteq> [] \<longrightarrow>
            ((k, SocketError ''sendMessage''
                   ''Message content is too long (max 2000 characters).'')
                \<in> set (news s (step L s (Emit k (SendMessage (Some q))))))
              = (2000 < length (trim text))
            \<and> (fst (createMessageHandler d reqUser param (JStr text))
                  = Inl (AppError 400 ''Message content is too long (max 2000 characters).''))
              = (2000 < length (trim text))))"
proof (intro conjI allI impI)
  fix m k0
  assume a: "(k0, NewMessage m) \<in> set (news s (step L s (Emit k (SendMessage data))))"
  then obtain u1 where u1: "map_of (sockets s) k = Some u1"
    by (cases "map_of (sockets s) k") auto
  with a have "(k0, NewMessage m) \<in> set (news s (on_sendMessage s k u1 data))"
    by simp
  from on_sendMessage_accepted [OF this] u1
  show "\<exists>p raw. data = Some p \<and> p_content p = JStr raw \<and> msg_content m = trim raw
          \<and> (\<exists>row. messages (store (step L s (Emit k (SendMessage data))))
                      = messages (store s) @ [row]
                \<and> msg_content row = trim raw)"
    by simp
next
  fix status m d1
  assume "createMessageHandler d reqUser param content = (Inr (status, m), d1)"
  from createMessageHandler_accepted [OF this]
  show "\<exists>raw. content = JStr raw \<and> msg_content m = trim raw
          \<and> (\<exists>row. messages d1 = messages d @ [row] \<and> msg_content row = trim raw)"
    by blast
next
  assume h: "map_of (sockets s) k = Some u \<and> parseInt (p_chatId q) = Some c
        \<and> parseInt_string param = Some c \<and> 0 < c \<and> p_content q = JStr text"
  then have h': "map_of (sockets s) k = Some u" "parseInt (p_chatId q) = Some c"
    "parseInt_string param = Some c" "0 < c" "p_content q = JStr text"
    by simp_all
  note t = content_checks_trimmed [OF h', of L d reqUser]
  from t show "messages (store (step L s (Emit k (SendMessage (Some q))))) = messages (store s)
          \<or> (\<exists>row. messages (store (step L s (Emit k (SendMessage (Some q)))))
                      = messages (store s) @ [row]
                \<and> msg_content row = trim text)"
    by blast
  {
    assume e: "trim text = []"
    from t e show "news s (step L s (Emit k (SendMessage (Some q))))
              = [(k, SocketError ''sendMessage'' ''Message content cannot be empty.'')]"
      by blast
    from t e show "store (step L s (Emit k (SendMessage (Some q)))) = store s"
      by blast
    from t e show "createMessageHandler d reqUser param (JStr text)
                = (Inl (AppError 400 ''Message content cannot be empty.''), d)"
      by blast
  }
  {
    assume e: "trim text \<noteq> []"
    from t e show "((k, SocketError ''sendMessage''
                   ''Message content is too long (max 2000 characters).'')
                \<in> set (news s (step L s (Emit k (SendMessage (Some q))))))
              = (2000 < length (trim text))"
      by blast
    from t e show "(fst (createMessageHandler d reqUser param (JStr text))
                  = Inl (AppError 400 ''Message content is too long (max 2000 characters).''))
              = (2000 < length (trim text))"
      by blast
  }
qed


theorem content_is_trimmed_witness:
  "map_of (sockets example_server) 0 = Some \<lparr>claim_id = 1, claim_username = ''A''\<rparr>
   \<and> parseInt (p_chatId (event_data (JNum 7) (JStr ''  hi  '') JUndefined)) = Some 7
   \<and> parseInt_string ''7'' = Some 7 \<and> (0::int) < 7
   \<and> p_content (event_data (JNum 7) (JStr ''  hi  '') JUndefined) = JStr ''  hi  ''
   \<and> trim ''  hi  '' = ''hi''
   \<and> map msg_content (messages (store (step example_libs example_server
         (Emit 0 (SendMessage (Some (event_data (JNum 7) (JStr ''  hi  '') JUndefined)))))))
       = [''hi'']
   \<and> map (\<lambda>m. msg_content (snd m))
         [projr (fst (createMessageHandler example_db \<lparr>claim_id = 1, claim_username = ''A''\<rparr>
                        ''7'' (JStr ''  hi  '')))]
       = [''hi'']
   \<and> p_content (event_data (JNum 7) (JStr ''   '') JUndefined) = JStr ''   ''
   \<and> trim ''   '' = []
   \<and> news example_server (step example_libs example_server
         (Emit 0 (SendMessage (Some (event_data (JNum 7) (JStr ''   '') JUndefined)))))
       = [(0, SocketError ''sendMessage'' ''Message content cannot be empty.'')]
   \<and> fst (createMessageHandler example_db \<lparr>claim_id = 1, claim_username = ''A''\<rparr> ''7''
            (JStr ''   ''))
       = Inl (AppError 400 ''Message content cannot be empty.'')"
proof -
  have h: "map_of (sockets example_server) 0 = Some \<lparr>claim_id = 1, claim_username = ''A''\<rparr>"
    "parseInt (p_chatId (event_data (JNum 7) (JStr ''  hi  '') JUndefined)) = Some 7"
    "parseInt (p_chatId (event_data (JNum 7) (JStr ''   '') JUndefined)) = Some 7"
    "parseInt_string ''7'' = Some 7" "(0::int) < 7"
    "p_content (event_data (JNum 7) (JStr ''  hi  '') JUndefined) = JStr ''  hi  ''"
    "p_content (event_data (JNum 7) (JStr ''   '') JUndefined) = JStr ''   ''"
    by code_simp+
  have e: "trim ''  hi  '' = ''hi''" "trim ''   '' = []"
    "map msg_content (messages (store (step example_libs example_server
         (Emit 0 (SendMessage (Some (event_data (JNum 7) (JStr ''  hi  '') JUndefined)))))))
       = [''hi'']"
    "map (\<lambda>m. msg_content (snd m))
         [projr (fst (createMessageHandler example_db \<lparr>claim_id = 1, claim_username = ''A''\<rparr>
                        ''7'' (JStr ''  hi  '')))]
       = [''hi'']"
    by code_simp+
  show ?thesis
    using h e
      content_is_trimmed [of example_server example_libs 0
        "Some (event_data (JNum 7) (JStr ''  hi  '') JUndefined)"
        example_db "\<lparr>claim_id = 1, claim_username = ''A''\<rparr>" "''7''" "JStr ''  hi  ''"
        "\<lparr>claim_id = 1, claim_username = ''A''\<rparr>"
        "event_data (JNum 7) (JStr ''   '') JUndefined" 7 "''   ''"]
    by (simp del: step.simps)
qed


section \<open>The handshake\<close>

lemma refusal_reason_messages:
  "refusal_reason ''Authentication error: No cookies provided.'' = Some NoCredential"
  "refusal_reason ''Authentication error: Access token not found in cookies.'' = Some NoCredential"
  "refusal_reason ''Authentication error: Access token expired. Please refresh.''
     = Some ExpiredCredential"
  "refusal_reason ''Authentication error: Invalid access token.'' = Some InvalidCredential"
  "refusal_reason ''Authentication error: Could not verify token.''
     = Some VerificationUnavailable"
  by (simp_all add: refusal_reason_def)

lemma authenticate_cases:
  "authenticate L cookieString =
     (case credential L cookieString of
        None \<Rightarrow>
          if cookieString = None \<or> cookieString = Some []
          then Inl ''Authentication error: No cookies provided.''
          else Inl ''Authentication error: Access token not found in cookies.''
      | Some token \<Rightarrow>
          (case jwt_verify L token of
             Decoded c \<Rightarrow> Inr c
           | Thrown name \<Rightarrow>
               if name = ''TokenExpiredError''
               then Inl ''Authentication error: Access token expired. Please refresh.''
               else if name = ''JsonWebTokenError''
               then Inl ''Authentication error: Invalid access token.''
               else Inl ''Authentication error: Could not verify token.''))"
  by (simp add: authenticate_def credential_def split: option.splits)


lemma refused_has_cause:
  assumes "authenticate L cookieString = Inl m"
  shows "refusal_reason m = failure_cause L cookieString \<and> failure_cause L cookieString \<noteq> None"
proof (cases "credential L cookieString")
  case None
  with assms have "m = ''Authentication error: No cookies provided.''
      \<or> m = ''Authentication error: Access token not found in cookies.''"
    by (simp add: authenticate_cases split: if_splits)
  with None show ?thesis
    by (auto simp: failure_cause_def refusal_reason_messages)
next
  case (Some token)
  show ?thesis
  proof (cases "jwt_verify L token")
    case (Decoded c)
    with Some assms show ?thesis by (simp add: authenticate_cases)
  next
    case (Thrown name)
    consider (expired) "name = ''TokenExpiredError''"
      | (invalid) "name \<noteq> ''TokenExpiredError''" "name = ''JsonWebTokenError''"
      | (other) "name \<noteq> ''TokenExpiredError''" "name \<noteq> ''JsonWebTokenError''"
      by blast
    then show ?thesis
    proof cases
      case expired
      with Some Thrown assms
      have "m = ''Authentication error: Access token expired. Please refresh.''"
        by (simp add: authenticate_cases)
      with Some Thrown expired show ?thesis
        by (simp add: failure_cause_def refusal_reason_messages)
    next
      case invalid
      with Some Thrown assms have "m = ''Authentication error: Invalid access token.''"
        by (simp add: authenticate_cases)
      with Some Thrown invalid show ?thesis
        by (simp add: failure_cause_def refusal_reason_messages)
    next
      case other
      with Some Thrown assms have "m = ''Authentication error: Could not verify token.''"
        by (simp add: authenticate_cases)
      with Some Thrown other show ?thesis
        by (simp add: failure_cause_def refusal_reason_messages)
    qed
  qed
qed

lemma cause_is_refused:
  assumes "failure_cause L cookieString \<noteq> None"
  shows "\<exists>m. authenticate L cookieString = Inl m"
proof (cases "authenticate L cookieString")
  case (Inl m)
  then show ?thesis by blast
next
  case (Inr c)
  then obtain token where "credential L cookieString = Some token" "jwt_verify L token = Decoded c"
    by (auto simp: authenticate_cases split: option.splits verified.splits if_splits)
  with assms show ?thesis by (simp add: failure_cause_def)
qed

text \<open>
  C6. A connection attempt is refused exactly when the verification of its credential
  fails for one of the causes listed. The refusal then carries one of five fixed messages,
  from which the reason is read, and the reason is the one of the cause: no credential
  (no cookie header, or no \<^verbatim>\<open>accessToken\<close> cookie in it), expired, invalid, or
  verification unavailable. Nothing but the record of the refusal changes: no socket is
  registered, and an event attributed to a socket that is not registered is not processed.
\<close>

theorem handshake_refusal:
  "((\<exists>m. authenticate L cookieString = Inl m) = (failure_cause L cookieString \<noteq> None))
   \<and> (\<forall>m. authenticate L cookieString = Inl m \<longrightarrow>
          refusal_reason m = failure_cause L cookieString
          \<and> refusal_reason m \<in> {Some NoCredential, Some InvalidCredential,
                                   Some ExpiredCredential, Some VerificationUnavailable}
          \<and> step L s (Connect cookieString) = s\<lparr>refused := refused s @ [m]\<rparr>
          \<and> (\<forall>k ev. map_of (sockets s) k = None \<longrightarrow>
                step L (step L s (Connect cookieString)) (Emit k ev)
                  = step L s (Connect cookieString)))"
proof (intro conjI allI impI)
  show "(\<exists>m. authenticate L cookieString = Inl m) = (failure_cause L cookieString \<noteq> None)"
    using refused_has_cause cause_is_refused by blast
next
  fix m
  assume a: "authenticate L cookieString = Inl m"
  then show "refusal_reason m = failure_cause L cookieString"
    using refused_has_cause by blast
  from a have "refusal_reason m \<noteq> None"
    using refused_has_cause by metis
  then show "refusal_reason m \<in> {Some NoCredential, Some InvalidCredential,
                                   Some ExpiredCredential, Some VerificationUnavailable}"
    by (cases "refusal_reason m") (auto intro: reason.exhaust)
  from a show st: "step L s (Connect cookieString) = s\<lparr>refused := refused s @ [m]\<rparr>"
    by (simp add: on_connect_def)
  fix k ev
  assume "map_of (sockets s) k = None"
  then show "step L (step L s (Connect cookieString)) (Emit k ev)
                  = step L s (Connect cookieString)"
    unfolding st by simp
qed

theorem handshake_refusal_witness:
  "authenticate example_libs None = Inl ''Authentication error: No cookies provided.''
   \<and> refusal_reason ''Authentication error: No cookies provided.'' = Some NoCredential
   \<and> failure_cause example_libs None = Some NoCredential
   \<and> authenticate example_libs (Some ''other=1'')
       = Inl ''Authentication error: Access token not found in cookies.''
   \<and> failure_cause example_libs (Some ''other=1'') = Some NoCredential
   \<and> authenticate example_libs (Some ''old-token'')
       = Inl ''Authentication error: Access token expired. Please refresh.''
   \<and> failure_cause example_libs (Some ''old-token'') = Some ExpiredCredential
   \<and> authenticate example_libs (Some ''garbage'')
       = Inl ''Authentication error: Invalid access token.''
   \<and> failure_cause example_libs (Some ''garbage'') = Some InvalidCredential
   \<and> authenticate example_libs (Some ''not-yet'')
       = Inl ''Authentication error: Could not verify token.''
   \<and> failure_cause example_libs (Some ''not-yet'') = Some VerificationUnavailable
   \<and> sockets (step example_libs example_server (Connect (Some ''old-token'')))
       = sockets example_server
   \<and> refused (step example_libs example_server (Connect (Some ''old-token'')))
       = [''Authentication error: Access token expired. Please refresh.'']"
proof -
  have a: "authenticate example_libs None = Inl ''Authentication error: No cookies provided.''"
    "authenticate example_libs (Some ''other=1'')
       = Inl ''Authentication error: Access token not found in cookies.''"
    "authenticate example_libs (Some ''old-token'')
       = Inl ''Authentication error: Access token expired. Please refresh.''"
    "authenticate example_libs (Some ''garbage'')
       = Inl ''Authentication error: Invalid access token.''"
    "authenticate example_libs (Some ''not-yet'')
       = Inl ''Authentication error: Could not verify token.''"
    by code_simp+
  have r: "refused example_server = []"
    by (simp add: example_server_def)
  show ?thesis
    using a r handshake_refusal [of example_libs None example_server]
      handshake_refusal [of example_libs "Some ''other=1''" example_server]
      handshake_refusal [of example_libs "Some ''old-token''" example_server]
      handshake_refusal [of example_libs "Some ''garbage''" example_server]
      handshake_refusal [of example_libs "Some ''not-yet''" example_server]
    by (simp del: step.simps add: refusal_reason_messages)
qed


section \<open>Room isolation\<close>

lemma unreached_iff:
  "unreached s k X =
     (k \<notin> rooms s X \<and> (\<forall>ev. (k, ev) \<in> set (delivered s) \<longrightarrow> scope ev \<noteq> Some X))"
  by (auto simp: unreached_def list_all_iff)

lemma on_joinChat_unreached:
  assumes "unreached s k X"
    and "\<not> (k1 = k \<and> event_chatId data = Some X
             \<and> \<not> isl (fst (checkUserInChat (store s) (claim_id u) X True)))"
  shows "unreached (on_joinChat s k1 u data) k X"
proof (cases "invalid_chatId (event_chatId data)")
  case True
  with assms(1) show ?thesis
    by (auto simp: on_joinChat_def unreached_iff socket_emit_def)
next
  case False
  then obtain c where c: "event_chatId data = Some c"
    by (auto simp: invalid_chatId_def split: option.splits)
  obtain r d1 where ck: "checkUserInChat (store s) (claim_id u) c True = (r, d1)"
    by (cases "checkUserInChat (store s) (claim_id u) c True")
  show ?thesis
  proof (cases r)
    case (Inl e)
    with False c ck assms(1) show ?thesis
      by (auto simp: on_joinChat_def unreached_iff socket_emit_def)
  next
    case (Inr ok)
    with ck c assms(2) have "\<not> (k1 = k \<and> c = X)" by auto
    with Inr False c ck assms(1) show ?thesis
      by (auto simp: on_joinChat_def unreached_iff socket_emit_def socket_join_def)
  qed
qed

lemma on_leaveChat_unreached:
  "unreached s k X \<Longrightarrow> unreached (on_leaveChat s k1 u data) k X"
  by (auto simp: on_leaveChat_def unreached_iff socket_emit_def socket_leave_def Let_def)

lemma on_typing_unreached:
  "unreached s k X \<Longrightarrow> unreached (on_typing s k1 u data) k X"
  by (auto simp: on_typing_def unreached_iff socket_to_emit_def Let_def)

lemma on_sendMessage_unreached:
  assumes "unreached s k X"
  shows "unreached (on_sendMessage s k1 u data) k X"
proof -
  let ?c = "the (event_chatId data)" and ?t = "the (event_content data)"
  obtain r d1 where cm: "createMessage (store s) ?c (claim_id u) ?t = (r, d1)"
    by (cases "createMessage (store s) ?c (claim_id u) ?t")
  show ?thesis
  proof (cases r)
    case (Inl e)
    with cm assms show ?thesis
      by (auto simp: on_sendMessage_def unreached_iff socket_emit_def Let_def)
  next
    case (Inr m)
    with cm have "msg_chat_id m = ?c"
      using createMessage_fields by blast
    with Inr cm assms show ?thesis
      by (auto simp: on_sendMessage_def unreached_iff socket_emit_def io_to_emit_def Let_def)
  qed
qed

lemma step_unreached:
  assumes "unreached s k X" and "(joins e k X \<and> guard_passes s k X) = False"
  shows "unreached (step L s e) k X"
proof (cases e)
  case (Connect cookieString)
  with assms(1) show ?thesis
    by (auto simp: on_connect_def unreached_iff split: sum.splits)
next
  case (Emit k1 ce)
  show ?thesis
  proof (cases "map_of (sockets s) k1")
    case None
    with Emit assms(1) show ?thesis by simp
  next
    case (Some u)
    show ?thesis
    proof (cases ce)
      case (JoinChat data)
      with Emit Some assms(2)
      have "\<not> (k1 = k \<and> event_chatId data = Some X
             \<and> \<not> isl (fst (checkUserInChat (store s) (claim_id u) X True)))"
        by (auto simp: guard_passes_def)
      with assms(1) have "unreached (on_joinChat s k1 u data) k X"
        by (rule on_joinChat_unreached)
      with Emit Some JoinChat show ?thesis by simp
    next
      case (LeaveChat data)
      with Emit Some assms(1) show ?thesis by (simp add: on_leaveChat_unreached)
    next
      case (SendMessage data)
      with Emit Some assms(1) show ?thesis by (simp add: on_sendMessage_unreached)
    next
      case (Typing data)
      with Emit Some assms(1) show ?thesis by (simp add: on_typing_unreached)
    qed
  qed
next
  case (Disconnect k1)
  with assms(1) show ?thesis by (auto simp: on_disconnect_def unreached_iff)
next
  case (CreateChat userIds name isGroupChat)
  with assms(1) show ?thesis by (auto simp: unreached_iff)
next
  case (PostMessage reqUser chatIdParam content)
  with assms(1) show ?thesis by (auto simp: unreached_iff)
next
  case (TimePasses n)
  with assms(1) show ?thesis by (auto simp: unreached_iff)
qed

lemma run_unreached:
  "unreached s k X \<Longrightarrow> no_admitted_join L s evs k X \<Longrightarrow> unreached (run L s evs) k X"
proof (induction evs arbitrary: s)
  case Nil
  then show ?case by simp
next
  case (Cons e es)
  then show ?case by (simp add: step_unreached)
qed


lemma checkUserInChat_participants:
  "checkUserInChat d u c b = (r, d1) \<Longrightarrow> chat_participants d1 = chat_participants d"
  by (auto simp: checkUserInChat_def findChatById_def db_query_def Let_def
      split: prod.splits sum.splits if_splits option.splits)

lemma checkUserInChat_sound:
  "checkUserInChat d u c True = (Inr ok, d1) \<Longrightarrow> participant_row d c u"
  using checkUserInChat_strict [of d u c] by (auto split: if_splits)

lemma insert_message_participants:
  "insert_message d c u t = (r, d1) \<Longrightarrow> chat_participants d1 = chat_participants d"
  by (auto simp: insert_message_def db_query_def Let_def split: if_splits)

lemma findUserById_participants:
  "findUserById d u b = (r, d1) \<Longrightarrow> chat_participants d1 = chat_participants d"
  using findUserById_tables by blast

lemma createMessage_participants:
  assumes "createMessage d c u t = (r, d1)"
  shows "chat_participants d1 = chat_participants d"
proof -
  obtain r0 d0 where ck: "checkUserInChat d u c True = (r0, d0)"
    by (cases "checkUserInChat d u c True")
  then have p0: "chat_participants d0 = chat_participants d"
    by (rule checkUserInChat_participants)
  obtain r2 d2 where ins: "insert_message d0 c u t = (r2, d2)"
    by (cases "insert_message d0 c u t")
  then have p2: "chat_participants d2 = chat_participants d0"
    by (rule insert_message_participants)
  show ?thesis
  proof (cases r0)
    case (Inl e)
    with ck assms p0 show ?thesis by (auto simp: createMessage_def)
  next
    case (Inr ok)
    show ?thesis
    proof (cases r2)
      case None
      with Inr ck ins assms p0 p2 show ?thesis by (auto simp: createMessage_def)
    next
      case (Some row)
      obtain r3 d3 where f: "findUserById d2 (msg_sender_id row) False = (r3, d3)"
        by (cases "findUserById d2 (msg_sender_id row) False")
      then have "chat_participants d3 = chat_participants d2"
        by (rule findUserById_participants)
      moreover have "d1 = d3"
        using assms ck Inr ins Some f
        by (auto simp: createMessage_def split: sum.splits option.splits)
      ultimately show ?thesis using p0 p2 by simp
    qed
  qed
qed

lemma createMessageHandler_participants:
  "chat_participants (snd (createMessageHandler d u param content)) = chat_participants d"
proof -
  let ?call = "createMessage d (the (parseInt_string param)) (claim_id u) (trim (ToString content))"
  obtain r d1 where cm: "?call = (r, d1)"
    by (cases ?call)
  then have "chat_participants d1 = chat_participants d"
    by (rule createMessage_participants)
  with cm show ?thesis
    by (cases r) (auto simp: createMessageHandler_def Let_def)
qed

lemma createChat_participants:
  "set (chat_participants d) \<subseteq> set (chat_participants (snd (createChat d userIds name g)))"
  using createChat_all_or_nothing [of d userIds name g "fst (createChat d userIds name g)"
      "snd (createChat d userIds name g)"]
  by auto

text \<open>No event takes a participant row away.\<close>

lemma step_participants:
  "participant_row (store s) X uid \<Longrightarrow> participant_row (store (step L s e)) X uid"
proof (cases e)
  case (Connect cookieString)
  then show "participant_row (store s) X uid \<Longrightarrow> ?thesis"
    by (auto simp: on_connect_def split: sum.splits)
next
  case (Emit k1 ce)
  assume p: "participant_row (store s) X uid"
  show ?thesis
  proof (cases "map_of (sockets s) k1")
    case None
    with Emit p show ?thesis by simp
  next
    case (Some u)
    have "chat_participants (store (handle s k1 u ce)) = chat_participants (store s)"
    proof (cases ce)
      case (JoinChat data)
      obtain r d1 where "checkUserInChat (store s) (claim_id u) (the (event_chatId data)) True
                          = (r, d1)"
        by (cases "checkUserInChat (store s) (claim_id u) (the (event_chatId data)) True")
      then show ?thesis
        using JoinChat checkUserInChat_participants
        by (cases r) (auto simp: on_joinChat_def socket_emit_def socket_join_def Let_def)
    next
      case (LeaveChat data)
      then show ?thesis
        by (auto simp: on_leaveChat_def socket_emit_def socket_leave_def Let_def)
    next
      case (SendMessage data)
      obtain r d1 where "createMessage (store s) (the (event_chatId data)) (claim_id u)
                           (the (event_content data)) = (r, d1)"
        by (cases "createMessage (store s) (the (event_chatId data)) (claim_id u)
                           (the (event_content data))")
      then show ?thesis
        using SendMessage createMessage_participants
        by (cases r) (auto simp: on_sendMessage_def socket_emit_def io_to_emit_def Let_def)
    next
      case (Typing data)
      then show ?thesis
        by (auto simp: on_typing_def socket_to_emit_def Let_def)
    qed
    with Emit Some p show ?thesis by (simp add: participant_row_def)
  qed
next
  case (Disconnect k1)
  then show "participant_row (store s) X uid \<Longrightarrow> ?thesis"
    by (simp add: on_disconnect_def)
next
  case (CreateChat userIds name isGroupChat)
  then show "participant_row (store s) X uid \<Longrightarrow> ?thesis"
    using createChat_participants [of "store s" userIds name isGroupChat]
    by (auto simp: participant_row_def)
next
  case (PostMessage reqUser chatIdParam content)
  then show "participant_row (store s) X uid \<Longrightarrow> ?thesis"
    by (simp add: participant_row_def createMessageHandler_participants)
next
  case (TimePasses n)
  then show "participant_row (store s) X uid \<Longrightarrow> ?thesis"
    by (simp add: participant_row_def)
qed


lemma handle_sockets: "sockets (handle s k u ce) = sockets s"
proof (cases ce)
  case (JoinChat data)
  then show ?thesis
    by (auto simp: on_joinChat_def socket_emit_def socket_join_def Let_def
        split: prod.splits sum.splits)
next
  case (LeaveChat data)
  then show ?thesis
    by (auto simp: on_leaveChat_def socket_emit_def socket_leave_def Let_def)
next
  case (SendMessage data)
  then show ?thesis
    by (auto simp: on_sendMessage_def socket_emit_def io_to_emit_def Let_def
        split: prod.splits sum.splits)
next
  case (Typing data)
  then show ?thesis
    by (auto simp: on_typing_def socket_to_emit_def Let_def)
qed

lemma map_of_filter_other:
  "k \<noteq> k0 \<Longrightarrow> map_of (filter (\<lambda>(k1, u). k1 \<noteq> k0) xs) k = map_of xs k"
  by (induction xs) auto

lemma step_sockets:
  assumes "map_of (sockets s) k = Some u" and "e \<noteq> Disconnect k"
  shows "map_of (sockets (step L s e)) k = Some u"
proof (cases e)
  case (Connect cookieString)
  with assms(1) show ?thesis
    by (auto simp: on_connect_def split: sum.splits)
next
  case (Emit k1 ce)
  with assms(1) show ?thesis
    by (cases "map_of (sockets s) k1") (simp_all add: handle_sockets)
next
  case (Disconnect k0)
  with assms show ?thesis
    by (simp add: on_disconnect_def map_of_filter_other)
qed (use assms(1) in auto)

lemma handle_rooms:
  assumes "k \<in> rooms (handle s k1 u ce) X"
  shows "k \<in> rooms s X
       \<or> (k1 = k \<and> (\<exists>ok d1. checkUserInChat (store s) (claim_id u) X True = (Inr ok, d1)))"
proof (cases ce)
  case (JoinChat data)
  show ?thesis
  proof (cases "invalid_chatId (event_chatId data)")
    case True
    with JoinChat assms show ?thesis
      by (simp add: on_joinChat_def socket_emit_def)
  next
    case False
    obtain r d1 where ck: "checkUserInChat (store s) (claim_id u) (the (event_chatId data)) True
                          = (r, d1)"
      by (cases "checkUserInChat (store s) (claim_id u) (the (event_chatId data)) True")
    show ?thesis
    proof (cases r)
      case (Inl e)
      with False ck JoinChat assms show ?thesis
        by (simp add: on_joinChat_def socket_emit_def)
    next
      case (Inr ok)
      with False ck JoinChat assms show ?thesis
        by (auto simp: on_joinChat_def socket_emit_def socket_join_def Let_def
            split: if_splits)
    qed
  qed
next
  case (LeaveChat data)
  with assms show ?thesis
    by (auto simp: on_leaveChat_def socket_emit_def socket_leave_def Let_def split: if_splits)
next
  case (SendMessage data)
  with assms show ?thesis
    by (auto simp: on_sendMessage_def socket_emit_def io_to_emit_def Let_def
        split: prod.splits sum.splits if_splits)
next
  case (Typing data)
  with assms show ?thesis
    by (auto simp: on_typing_def socket_to_emit_def Let_def split: if_splits)
qed

lemma step_rooms:
  assumes "k \<in> rooms (step L s e) X"
  shows "(k \<in> rooms s X \<and> e \<noteq> Disconnect k)
       \<or> (\<exists>u ok d1. map_of (sockets s) k = Some u
             \<and> checkUserInChat (store s) (claim_id u) X True = (Inr ok, d1))"
proof (cases e)
  case (Connect cookieString)
  with assms show ?thesis
    by (auto simp: on_connect_def split: sum.splits)
next
  case (Emit k1 ce)
  show ?thesis
  proof (cases "map_of (sockets s) k1")
    case None
    with Emit assms show ?thesis by simp
  next
    case (Some u)
    with Emit assms have "k \<in> rooms (handle s k1 u ce) X" by simp
    from handle_rooms [OF this] Some Emit show ?thesis by auto
  qed
next
  case (Disconnect k0)
  with assms show ?thesis by (auto simp: on_disconnect_def)
qed (use assms in auto)

lemma step_rooms_ok:
  assumes "rooms_ok s"
  shows "rooms_ok (step L s e)"
  unfolding rooms_ok_def
proof (intro allI impI)
  fix k X
  assume "k \<in> rooms (step L s e) X"
  from step_rooms [OF this]
  consider (old) "k \<in> rooms s X" "e \<noteq> Disconnect k"
    | (new) u ok d1 where "map_of (sockets s) k = Some u"
        "checkUserInChat (store s) (claim_id u) X True = (Inr ok, d1)"
    by blast
  then show "\<exists>u. map_of (sockets (step L s e)) k = Some u
               \<and> participant_row (store (step L s e)) X (claim_id u)"
  proof cases
    case old
    with assms obtain u where u: "map_of (sockets s) k = Some u"
      "participant_row (store s) X (claim_id u)"
      by (auto simp: rooms_ok_def)
    with old show ?thesis
      using step_sockets step_participants by blast
  next
    case new
    then have "participant_row (store s) X (claim_id u)"
      using checkUserInChat_sound by blast
    moreover have "e \<noteq> Disconnect k"
      using \<open>k \<in> rooms (step L s e) X\<close> by (auto simp: on_disconnect_def)
    ultimately show ?thesis
      using new step_sockets step_participants by blast
  qed
qed

lemma run_rooms_ok: "rooms_ok s \<Longrightarrow> rooms_ok (run L s evs)"
  by (induction evs arbitrary: s) (simp_all add: step_rooms_ok)

lemma init_rooms_ok: "rooms_ok (init_server d)"
  by (simp add: rooms_ok_def init_server_def)

lemma init_unreached: "unreached (init_server d) k X"
  by (simp add: unreached_def init_server_def)

lemma rejected_join:
  assumes "rooms_ok s" and "map_of (sockets s) k = Some u"
    and "\<not> participant_row (store s) X (claim_id u)"
    and "event_chatId data = Some X"
  shows "k \<notin> rooms (step L s (Emit k (JoinChat data))) X
       \<and> (\<exists>m. news s (step L s (Emit k (JoinChat data))) = [(k, SocketError ''joinChat'' m)])"
proof -
  have before: "k \<notin> rooms s X"
    using assms(1,2,3) unfolding rooms_ok_def by (metis option.inject)
  obtain r d1 where ck: "checkUserInChat (store s) (claim_id u) X True = (r, d1)"
    by (cases "checkUserInChat (store s) (claim_id u) X True")
  show ?thesis
  proof (cases r)
    case (Inl e)
    with ck assms(2,4) before show ?thesis
      by (auto simp: on_joinChat_def socket_emit_def news_def Let_def)
  next
    case (Inr ok)
    with ck assms(3) show ?thesis
      using checkUserInChat_sound by blast
  qed
qed

text \<open>
  C3. In every execution from the start of the process: a socket that issued no
  \<^verbatim>\<open>joinChat\<close> for chat \<open>X\<close>, or none that passed the membership guard, is not in room
  \<open>X\<close> and has been sent no \<^verbatim>\<open>newMessage\<close> and no \<^verbatim>\<open>userTyping\<close> of chat \<open>X\<close>,
  whatever other rooms it is in. And when a connected socket whose user has no participant
  row for \<open>X\<close> asks to join \<open>X\<close>, it is sent \<^verbatim>\<open>socketError\<close> for \<^verbatim>\<open>joinChat\<close> and is
  not in room \<open>X\<close> afterwards.
\<close>

theorem room_isolation:
  "(no_admitted_join L (init_server d0) evs k X \<longrightarrow>
      k \<notin> rooms (run L (init_server d0) evs) X
      \<and> (\<forall>ev. (k, ev) \<in> set (delivered (run L (init_server d0) evs)) \<longrightarrow>
             scope ev \<noteq> Some X))
   \<and> (map_of (sockets (run L (init_server d0) evs)) k = Some u
        \<and> \<not> participant_row (store (run L (init_server d0) evs)) X (claim_id u)
        \<and> event_chatId data = Some X \<longrightarrow>
      k \<notin> rooms (step L (run L (init_server d0) evs) (Emit k (JoinChat data))) X
      \<and> (\<exists>m. news (run L (init_server d0) evs)
                 (step L (run L (init_server d0) evs) (Emit k (JoinChat data)))
               = [(k, SocketError ''joinChat'' m)]))"
proof (intro conjI impI)
  assume "no_admitted_join L (init_server d0) evs k X"
  then have "unreached (run L (init_server d0) evs) k X"
    using init_unreached run_unreached by blast
  then show "k \<notin> rooms (run L (init_server d0) evs) X"
    and "\<forall>ev. (k, ev) \<in> set (delivered (run L (init_server d0) evs)) \<longrightarrow> scope ev \<noteq> Some X"
    by (simp_all add: unreached_iff)
next
  assume a: "map_of (sockets (run L (init_server d0) evs)) k = Some u
        \<and> \<not> participant_row (store (run L (init_server d0) evs)) X (claim_id u)
        \<and> event_chatId data = Some X"
  have "rooms_ok (run L (init_server d0) evs)"
    using init_rooms_ok run_rooms_ok by blast
  with a have r: "k \<notin> rooms (step L (run L (init_server d0) evs) (Emit k (JoinChat data))) X
       \<and> (\<exists>m. news (run L (init_server d0) evs)
                 (step L (run L (init_server d0) evs) (Emit k (JoinChat data)))
               = [(k, SocketError ''joinChat'' m)])"
    using rejected_join by blast
  from r show "k \<notin> rooms (step L (run L (init_server d0) evs) (Emit k (JoinChat data))) X" ..
  from r show "\<exists>m. news (run L (init_server d0) evs)
                 (step L (run L (init_server d0) evs) (Emit k (JoinChat data)))
               = [(k, SocketError ''joinChat'' m)]" ..
qed


theorem room_isolation_witness:
  "no_admitted_join example_libs (init_server example_db) example_trace 2 7
   \<and> 2 \<in> rooms (run example_libs (init_server example_db) example_trace) 8
   \<and> 2 \<notin> rooms (run example_libs (init_server example_db) example_trace) 7
   \<and> filter (\<lambda>(k, ev). k = 2) (delivered (run example_libs (init_server example_db) example_trace))
       = [(2, SocketError ''joinChat'' ''Access denied. You are not a participant in this chat.''),
          (2, ChatJoined 8 ''Successfully joined chat 8'')]
   \<and> map_of (sockets (run example_libs (init_server example_db) example_trace)) 2
       = Some \<lparr>claim_id = 3, claim_username = ''C''\<rparr>
   \<and> \<not> participant_row (store (run example_libs (init_server example_db) example_trace)) 7
         (claim_id \<lparr>claim_id = 3, claim_username = ''C''\<rparr>)
   \<and> event_chatId (Some (event_data (JNum 7) JUndefined JUndefined)) = Some 7
   \<and> news (run example_libs (init_server example_db) example_trace)
        (step example_libs (run example_libs (init_server example_db) example_trace)
           (Emit 2 (JoinChat (Some (event_data (JNum 7) JUndefined JUndefined)))))
       = [(2, SocketError ''joinChat'' ''Access denied. You are not a participant in this chat.'')]"
proof -
  have h: "no_admitted_join example_libs (init_server example_db) example_trace 2 7"
    by code_simp
  have b: "map_of (sockets (run example_libs (init_server example_db) example_trace)) 2
       = Some \<lparr>claim_id = 3, claim_username = ''C''\<rparr>
   \<and> \<not> participant_row (store (run example_libs (init_server example_db) example_trace)) 7
         (claim_id \<lparr>claim_id = 3, claim_username = ''C''\<rparr>)
   \<and> event_chatId (Some (event_data (JNum 7) JUndefined JUndefined)) = Some 7"
    by code_simp
  have e: "2 \<in> rooms (run example_libs (init_server example_db) example_trace) 8"
    "filter (\<lambda>(k, ev). k = 2) (delivered (run example_libs (init_server example_db) example_trace))
       = [(2, SocketError ''joinChat'' ''Access denied. You are not a participant in this chat.''),
          (2, ChatJoined 8 ''Successfully joined chat 8'')]"
    "news (run example_libs (init_server example_db) example_trace)
        (step example_libs (run example_libs (init_server example_db) example_trace)
           (Emit 2 (JoinChat (Some (event_data (JNum 7) JUndefined JUndefined)))))
       = [(2, SocketError ''joinChat'' ''Access denied. You are not a participant in this chat.'')]"
    by code_simp+
  show ?thesis
    using h b e
      room_isolation [of example_libs example_db example_trace 2 7
        "\<lparr>claim_id = 3, claim_username = ''C''\<rparr>"
        "Some (event_data (JNum 7) JUndefined JUndefined)"]
    by (simp del: step.simps)
qed


end
